theory Spec2Isabelle
  imports Main
begin

section \<open>Type-level data of \<open>sfinae_utility.hpp\<close>\<close>

text \<open>
  The header computes at compile time, on types. The model evaluates the same
  computation on values that stand for those types.

  A type is its spelling (\<open>''int''\<close>, \<open>''const arma::mat&''\<close>); two types are the same
  type when their spellings are equal. The type of a pointer to a non-static member
  function \<open>R (C::*)(P1, ..., Pk) [const]\<close> is a record of its return type, its parameter
  types and its const qualifier. A class is the list of the member functions it declares
  (name and type), overloads being several entries of one name. Every member is public,
  non-template and declared in the class itself, so the class of every member pointer
  taken from \<open>C\<close> is \<open>C\<close> and is left out of the record.
\<close>

type_synonym cpp_type = string

record member_fn_type =
  ret :: cpp_type
  params :: "cpp_type list"
  is_const :: bool

type_synonym cpp_class = "(string \<times> member_fn_type) list"

text \<open>
  A method form is an alias template as in the header's own example,
  \<open>template<typename Class, typename...Ts> using TrainForm =
  void(Class::*)(const arma::mat&, const arma::Row<size_t>&, Ts...)\<close>:
  a fixed return type, fixed leading parameters and a const qualifier; the pack \<open>Ts...\<close>
  is the trailing parameters. \<open>MethodForm f Ts\<close> is the instance \<open>MethodForm<Class, Ts...>\<close>.
\<close>

record method_form =
  form_ret :: cpp_type
  form_prefix :: "cpp_type list"
  form_const :: bool

definition MethodForm :: "method_form \<Rightarrow> cpp_type list \<Rightarrow> member_fn_type" where
  "MethodForm f Ts = \<lparr>ret = form_ret f, params = form_prefix f @ Ts, is_const = form_const f\<rparr>"

text \<open>
  What makes an expression or a declaration ill-formed. Whether an ill-formed construct is
  a substitution failure (the candidate is dropped) or stops the compilation is decided by
  the context that uses it.
\<close>

datatype ill_formed =
    IncompleteType
  | NoSuchMember
  | NoMatchingFunction
  | DeductionFailed
  | NoTypeMember
  | NoViableFunction
  | AmbiguousCall
  | NarrowingConversion
  | TemplateArgumentMismatch
  | Redefinition
  | NameClash
  | UndeclaredName

section \<open>\<open>MethodFormDetecter\<close> (lines 41 to 101)\<close>

definition MaxMFDAdditionalArgsCount :: nat where
  "MaxMFDAdditionalArgsCount = 7"

text \<open>
  The primary template is declared and never defined. Each of the eight partial
  specialisations defines one \<open>operator()\<close>; the model records the number of template
  parameters \<open>T1, ..., Tk\<close> of that operator, whose single function parameter has the type
  \<open>MethodForm<Class, T1, ..., Tk>\<close>. \<open>None\<close> is the incomplete type the primary template
  leaves.
\<close>

definition MethodFormDetecter :: "nat \<Rightarrow> nat option" where
  "MethodFormDetecter AdditionalArgsCount =
     (if AdditionalArgsCount = 0 then Some 0
      else if AdditionalArgsCount = 1 then Some 1
      else if AdditionalArgsCount = 2 then Some 2
      else if AdditionalArgsCount = 3 then Some 3
      else if AdditionalArgsCount = 4 then Some 4
      else if AdditionalArgsCount = 5 then Some 5
      else if AdditionalArgsCount = 6 then Some 6
      else if AdditionalArgsCount = 7 then Some 7
      else None)"

text \<open>
  The alias \<open>MFD\<close> of the macro, lines 192 and 193, declares its third parameter as
  \<open>int N\<close>, while the count it is given at line 206 is the \<open>size_t N\<close> of line 199. The
  template argument is converted from \<open>size_t\<close> to \<open>int\<close>, which is a narrowing conversion
  and ill-formed when the count does not fit; \<open>int\<close> is taken to be 32 bits wide.
  Within \<open>int\<close>, \<open>MFD N\<close> is the expression \<open>MethodFormDetecter<C, MF, N>()\<close>: creating an
  object needs a complete type.
\<close>

definition INT_MAX :: nat where
  "INT_MAX = 2147483647"

definition MFD :: "nat \<Rightarrow> ill_formed + nat" where
  "MFD N =
     (if INT_MAX < N then Inl NarrowingConversion
      else (case MethodFormDetecter N of None \<Rightarrow> Inl IncompleteType | Some k \<Rightarrow> Inr k))"

text \<open>
  Template argument deduction of \<open>T1, ..., Tk\<close> from the parameter type
  \<open>MethodForm<Class, T1, ..., Tk>\<close> and the type \<open>A\<close> of one member function: return type,
  qualifier and leading parameters must be those of the form, and exactly \<open>k\<close> parameters
  remain, which are the deduced types.
\<close>

definition deduce :: "method_form \<Rightarrow> nat \<Rightarrow> member_fn_type \<Rightarrow> cpp_type list option" where
  "deduce f k A =
     (let n = length (form_prefix f) in
      if ret A = form_ret f \<and> is_const A = form_const f \<and> length (params A) = n + k
         \<and> take n (params A) = form_prefix f
      then Some (drop n (params A)) else None)"

text \<open>
  The call \<open>detecter(&C::METHOD)\<close> of an \<open>operator()\<close> with \<open>k\<close> template parameters, the
  argument being the set of member functions the name denotes. With \<open>k = 0\<close> the operator
  is no template and the address of the overloaded name is resolved against the target
  type \<open>MethodForm<Class>\<close>: exactly one function of the set must have that type. With
  \<open>k > 0\<close> deduction is tried with each function of the set; the call is well-formed when
  it succeeds for exactly one of them (with more than one the parameter is a non-deduced
  context and \<open>T1, ..., Tk\<close> stay undeduced). The type of the call is \<open>void\<close>.
\<close>

definition operator_call :: "method_form \<Rightarrow> nat \<Rightarrow> member_fn_type list \<Rightarrow> ill_formed + cpp_type" where
  "operator_call f k fs =
     (if k = 0
      then (if length (filter (\<lambda>A. A = MethodForm f []) fs) = 1
            then Inr ''void'' else Inl NoMatchingFunction)
      else (if length (filter (\<lambda>A. deduce f k A \<noteq> None) fs) = 1
            then Inr ''void'' else Inl DeductionFailed))"

section \<open>\<open>True\<close> and \<open>EnableIfCompilable\<close> (lines 103 to 119)\<close>

definition True_value :: "'t \<Rightarrow> bool" where
  "True_value T = True"

definition enable_if :: "bool \<Rightarrow> 'r \<Rightarrow> ill_formed + 'r" where
  "enable_if B R = (if B then Inr R else Inl NoTypeMember)"

definition EnableIfCompilable :: "ill_formed + 't \<Rightarrow> 'r \<Rightarrow> ill_formed + 'r" where
  "EnableIfCompilable T ResultType =
     (case T of Inl e \<Rightarrow> Inl e | Inr t \<Rightarrow> enable_if (True_value t) ResultType)"

section \<open>The \<open>chk\<close> idiom shared by both macros\<close>

text \<open>
  \<open>yes\<close> is \<open>char[1]\<close> and \<open>no\<close> is \<open>char[2]\<close>. A candidate of the call \<open>chk<Class>(0)\<close> is
  the implicit conversion its parameter needs for the argument \<open>0\<close>, with its return
  type. Overload resolution takes the candidate whose conversion is better than every
  other's; the call is ill-formed when there is no candidate or no single best one.
\<close>

datatype chk_result = yes | no

fun sizeof :: "chk_result \<Rightarrow> nat" where
  "sizeof yes = 1"
| "sizeof no = 2"

datatype conversion = ExactMatch | NullPointerConversion | EllipsisConversion

fun rank :: "conversion \<Rightarrow> nat" where
  "rank ExactMatch = 0"
| "rank NullPointerConversion = 1"
| "rank EllipsisConversion = 2"

definition overload_resolution :: "(conversion \<times> 'r) list \<Rightarrow> ill_formed + 'r" where
  "overload_resolution cands =
     (case filter (\<lambda>c. list_all (\<lambda>d. rank (fst c) \<le> rank (fst d)) cands) cands of
        [] \<Rightarrow> Inl NoViableFunction
      | [c] \<Rightarrow> Inr (snd c)
      | _ \<Rightarrow> Inl AmbiguousCall)"

section \<open>\<open>HAS_METHOD_FORM\<close> (lines 182 to 227)\<close>

definition member_lookup :: "cpp_class \<Rightarrow> string \<Rightarrow> member_fn_type list" where
  "member_lookup C METHOD = map snd (filter (\<lambda>m. fst m = METHOD) C)"

text \<open>The expression \<open>&C::METHOD\<close>.\<close>

definition address_of_member :: "cpp_class \<Rightarrow> string \<Rightarrow> ill_formed + member_fn_type list" where
  "address_of_member C METHOD =
     (case member_lookup C METHOD of [] \<Rightarrow> Inl NoSuchMember | fs \<Rightarrow> Inr fs)"

text \<open>The type \<open>decltype(MFD<C, MF, N>()(&C::METHOD))\<close> of line 206.\<close>

definition probe :: "string \<Rightarrow> cpp_class \<Rightarrow> method_form \<Rightarrow> nat \<Rightarrow> ill_formed + cpp_type" where
  "probe METHOD C f N =
     (case MFD N of
        Inl e \<Rightarrow> Inl e
      | Inr k \<Rightarrow>
          (case address_of_member C METHOD of
             Inl e \<Rightarrow> Inl e
           | Inr fs \<Rightarrow> operator_call f k fs))"

text \<open>
  The two declarations of \<open>chk\<close> in \<open>WithNAdditionalArgs<N>\<close>. Substitution of \<open>C = Class\<close>
  into the return type of the first is in the immediate context of the call: when it is
  ill-formed the declaration is no candidate. The count \<open>N\<close> is a parameter of the
  enclosing struct and not of \<open>chk\<close>: its narrowing is found when the struct is
  instantiated, is no substitution failure and stops the compilation. \<open>chk(int)\<close> takes
  \<open>0\<close> as it is, \<open>chk(...)\<close> through the ellipsis.
\<close>

definition WithNAdditionalArgs_chk ::
  "string \<Rightarrow> cpp_class \<Rightarrow> method_form \<Rightarrow> nat
     \<Rightarrow> ill_formed + (conversion \<times> chk_result) list" where
  "WithNAdditionalArgs_chk METHOD C f N =
     (case EnableIfCompilable (probe METHOD C f N) yes of
        Inr r \<Rightarrow> Inr [(ExactMatch, r), (EllipsisConversion, no)]
      | Inl e \<Rightarrow>
          (if e = NarrowingConversion then Inl e else Inr [(EllipsisConversion, no)]))"

text \<open>\<open>WithNAdditionalArgs<N>::value\<close>, line 210.\<close>

definition WithNAdditionalArgs ::
  "string \<Rightarrow> cpp_class \<Rightarrow> method_form \<Rightarrow> nat \<Rightarrow> ill_formed + bool" where
  "WithNAdditionalArgs METHOD C f N =
     (case WithNAdditionalArgs_chk METHOD C f N of
        Inl e \<Rightarrow> Inl e
      | Inr cands \<Rightarrow>
          (case overload_resolution cands of
             Inl e \<Rightarrow> Inl e
           | Inr r \<Rightarrow> Inr (sizeof r = sizeof yes)))"

text \<open>
  \<open>WithGreaterOrEqualNumberOfAdditionalArgs<N>::type\<close>, lines 216 to 222, is one of
  \<open>std::true_type\<close>, \<open>std::false_type\<close> and the next instance of the search.
  \<open>std::conditional\<close> only names its two alternatives: neither is instantiated by it.
\<close>

datatype search_type = true_type | false_type | WithGreaterOrEqual nat

definition conditional :: "bool \<Rightarrow> 't \<Rightarrow> 't \<Rightarrow> 't" where
  "conditional B T F = (if B then T else F)"

definition WithGreaterOrEqualNumberOfAdditionalArgs_type ::
  "string \<Rightarrow> cpp_class \<Rightarrow> method_form \<Rightarrow> nat \<Rightarrow> ill_formed + search_type" where
  "WithGreaterOrEqualNumberOfAdditionalArgs_type METHOD C f N =
     (case WithNAdditionalArgs METHOD C f N of
        Inl e \<Rightarrow> Inl e
      | Inr b \<Rightarrow>
          Inr (conditional b true_type
                 (conditional (N < MaxMFDAdditionalArgsCount)
                    (WithGreaterOrEqual (N + 1)) false_type)))"

text \<open>
  \<open>WithGreaterOrEqualNumberOfAdditionalArgs<N>::value\<close>, line 223: \<open>type::value\<close>, which
  instantiates the next instance of the search only when \<open>type\<close> is that instance.
\<close>

function WithGreaterOrEqualNumberOfAdditionalArgs ::
  "string \<Rightarrow> cpp_class \<Rightarrow> method_form \<Rightarrow> nat \<Rightarrow> ill_formed + bool" where
  "WithGreaterOrEqualNumberOfAdditionalArgs METHOD C f N =
     (case WithGreaterOrEqualNumberOfAdditionalArgs_type METHOD C f N of
        Inl e \<Rightarrow> Inl e
      | Inr true_type \<Rightarrow> Inr True
      | Inr false_type \<Rightarrow> Inr False
      | Inr (WithGreaterOrEqual M) \<Rightarrow> WithGreaterOrEqualNumberOfAdditionalArgs METHOD C f M)"
  by pat_completeness auto
termination
  by (relation "measure (\<lambda>(METHOD, C, f, N). 8 - N)")
    (auto simp: WithGreaterOrEqualNumberOfAdditionalArgs_type_def conditional_def
      MaxMFDAdditionalArgsCount_def split: sum.splits if_splits)

text \<open>
  The instances \<open>WithNAdditionalArgs<N>\<close> that evaluating
  \<open>WithGreaterOrEqualNumberOfAdditionalArgs<N>::value\<close> instantiates, in the order of
  instantiation: the counts the search probes.
\<close>

function probed :: "string \<Rightarrow> cpp_class \<Rightarrow> method_form \<Rightarrow> nat \<Rightarrow> nat list" where
  "probed METHOD C f N =
     N # (case WithGreaterOrEqualNumberOfAdditionalArgs_type METHOD C f N of
            Inr (WithGreaterOrEqual M) \<Rightarrow> probed METHOD C f M
          | _ \<Rightarrow> [])"
  by pat_completeness auto
termination
  by (relation "measure (\<lambda>(METHOD, C, f, N). 8 - N)")
    (auto simp: WithGreaterOrEqualNumberOfAdditionalArgs_type_def conditional_def
      MaxMFDAdditionalArgsCount_def split: sum.splits if_splits)

text \<open>The member \<open>value\<close> of the generated struct, line 226.\<close>

definition HAS_METHOD_FORM_value :: "string \<Rightarrow> cpp_class \<Rightarrow> method_form \<Rightarrow> ill_formed + bool" where
  "HAS_METHOD_FORM_value METHOD C f = WithGreaterOrEqualNumberOfAdditionalArgs METHOD C f 0"

text \<open>
  The struct template is declared as \<open>template<typename Class, template<typename...> class
  MethodForm> struct NAME\<close>, lines 183 to 185: its first parameter takes a type, its
  second a template. A template argument list of any other shape does not match the
  parameter list, outside of any substitution.
\<close>

datatype template_argument = TypeArgument cpp_class | TemplateArgument method_form

definition HAS_METHOD_FORM_struct :: "string \<Rightarrow> template_argument list \<Rightarrow> ill_formed + bool" where
  "HAS_METHOD_FORM_struct METHOD args =
     (case args of
        [TypeArgument Class, TemplateArgument Form] \<Rightarrow>
          HAS_METHOD_FORM_value METHOD Class Form
      | _ \<Rightarrow> Inl TemplateArgumentMismatch)"

text \<open>
  The names of an expansion of the macro. The struct \<open>NAME\<close> is the one declaration the
  expansion adds to the enclosing scope. Its template parameters are named at lines 183
  and 184; the aliases, the constant, the two helper structs and \<open>value\<close> of lines 189 to
  226 are members of the struct. A class cannot be named like one of its template
  parameters or like one of its members.
\<close>

definition template_parameter_names :: "string list" where
  "template_parameter_names = [''Class'', ''MethodForm'']"

definition member_names :: "string list" where
  "member_names =
     [''MF'', ''MFD'', ''EnableIfComp'', ''MaxMFDAdditionalArgsCount'',
      ''WithNAdditionalArgs'', ''WithGreaterOrEqualNumberOfAdditionalArgs'', ''value'']"

text \<open>
  A name of the enclosing scope denotes a detector struct generated for a method name, or
  an entity the headers declare: the namespaces \<open>mlpack\<close> and \<open>std\<close> and the type \<open>size_t\<close>,
  which the text of the macro refers to. \<open>header_scope\<close> is the scope after the header is
  included and before any expansion. The expansions of one translation context are taken
  to be in one scope, in which the names of the headers are declared; \<open>METHOD\<close> and \<open>NAME\<close>
  are identifiers.
\<close>

datatype scope_entity = detector string | header_name

type_synonym translation_unit = "string \<rightharpoonup> scope_entity"

definition header_scope :: translation_unit where
  "header_scope =
     [''mlpack'' \<mapsto> header_name, ''std'' \<mapsto> header_name, ''size_t'' \<mapsto> header_name]"

text \<open>
  Unqualified lookup of a name used in the body of the struct \<open>NAME\<close>: the members of the
  struct, its template parameters and its own name hide the enclosing scope.
\<close>

datatype binding = own_member | own_parameter | own_name | enclosing scope_entity | unbound

definition unqualified_lookup :: "translation_unit \<Rightarrow> string \<Rightarrow> string \<Rightarrow> binding" where
  "unqualified_lookup tu NAME x =
     (if x \<in> set member_names then own_member
      else if x \<in> set template_parameter_names then own_parameter
      else if x = NAME then own_name
      else (case tu x of None \<Rightarrow> unbound | Some d \<Rightarrow> enclosing d))"

text \<open>
  The names the body looks up at the level of the struct (the names declared inside the
  two helper structs, \<open>yes\<close>, \<open>no\<close>, \<open>chk\<close>, \<open>type\<close>, \<open>value\<close> and their template parameters, are
  found there and never reach this level), in the order of their first use, each with
  what the text of the macro needs it to denote.
\<close>

definition body_uses :: "(string \<times> binding) list" where
  "body_uses =
     [(''MethodForm'', own_parameter),
      (''mlpack'', enclosing header_name),
      (''size_t'', enclosing header_name),
      (''EnableIfComp'', own_member),
      (''MFD'', own_member),
      (''MF'', own_member),
      (''Class'', own_parameter),
      (''std'', enclosing header_name),
      (''WithNAdditionalArgs'', own_member),
      (''MaxMFDAdditionalArgsCount'', own_member),
      (''WithGreaterOrEqualNumberOfAdditionalArgs'', own_member)]"

text \<open>
  The expansion \<open>HAS_METHOD_FORM(METHOD, NAME)\<close> in a scope: ill-formed when \<open>NAME\<close> is
  declared already, when it is the name of a template parameter or of a member of the
  struct, and when a name of the body does not denote what the text needs; otherwise the
  scope gains the one name \<open>NAME\<close>.
\<close>

definition HAS_METHOD_FORM ::
  "string \<Rightarrow> string \<Rightarrow> translation_unit \<Rightarrow> ill_formed + translation_unit" where
  "HAS_METHOD_FORM METHOD NAME tu =
     (if tu NAME \<noteq> None then Inl Redefinition
      else if NAME \<in> set template_parameter_names \<or> NAME \<in> set member_names
        then Inl NameClash
      else if \<not> list_all (\<lambda>u. unqualified_lookup tu NAME (fst u) = snd u) body_uses
        then Inl UndeclaredName
      else Inr (tu(NAME \<mapsto> detector METHOD)))"

text \<open>The expression \<open>NAME<args>::value\<close> in a translation unit.\<close>

definition detector_value ::
  "translation_unit \<Rightarrow> string \<Rightarrow> template_argument list \<Rightarrow> ill_formed + bool" where
  "detector_value tu NAME args =
     (case tu NAME of
        Some (detector METHOD) \<Rightarrow> HAS_METHOD_FORM_struct METHOD args
      | _ \<Rightarrow> Inl UndeclaredName)"

section \<open>\<open>HAS_MEM_FUNC\<close> (lines 142 to 151)\<close>

text \<open>
  \<open>type_check<sig, &_1::FUNC>\<close>: the template argument \<open>&T::FUNC\<close> for a non-type parameter
  of the pointer to member function type \<open>sig\<close>. No conversion applies; of an overloaded
  name the function of type \<open>sig\<close> is selected, and there must be exactly one.
\<close>

definition type_check :: "member_fn_type \<Rightarrow> ill_formed + member_fn_type list \<Rightarrow> ill_formed + unit" where
  "type_check sig arg =
     (case arg of
        Inl e \<Rightarrow> Inl e
      | Inr fs \<Rightarrow>
          (if length (filter (\<lambda>A. A = sig) fs) = 1 then Inr () else Inl NoMatchingFunction))"

text \<open>
  The two declarations of \<open>chk\<close>, lines 148 and 149: the first takes a pointer, which the
  argument \<open>0\<close> reaches by a null pointer conversion, the second the ellipsis.
\<close>

definition HAS_MEM_FUNC_chk ::
  "string \<Rightarrow> cpp_class \<Rightarrow> member_fn_type \<Rightarrow> (conversion \<times> chk_result) list" where
  "HAS_MEM_FUNC_chk FUNC T sig =
     (case type_check sig (address_of_member T FUNC) of
        Inr u \<Rightarrow> [(NullPointerConversion, yes)]
      | Inl e \<Rightarrow> [])
     @ [(EllipsisConversion, no)]"

text \<open>\<open>NAME<T, sig>::value\<close>, line 150.\<close>

definition HAS_MEM_FUNC :: "string \<Rightarrow> cpp_class \<Rightarrow> member_fn_type \<Rightarrow> ill_formed + bool" where
  "HAS_MEM_FUNC FUNC T sig =
     (case overload_resolution (HAS_MEM_FUNC_chk FUNC T sig) of
        Inl e \<Rightarrow> Inl e
      | Inr r \<Rightarrow> Inr (sizeof r = sizeof yes))"

section \<open>The example of the header's documentation (lines 158 to 175)\<close>

text \<open>
  The class \<open>A\<close> with its method \<open>Train(const arma::mat&, const arma::Row<size_t>&, double)\<close>
  and the form \<open>TrainForm\<close> of the comment that documents \<open>HAS_METHOD_FORM\<close>.
\<close>

definition class_A :: cpp_class where
  "class_A =
     [(''Train'', \<lparr>ret = ''void'',
         params = [''const arma::mat&'', ''const arma::Row<size_t>&'', ''double''],
         is_const = False\<rparr>)]"

definition TrainForm :: method_form where
  "TrainForm =
     \<lparr>form_ret = ''void'',
      form_prefix = [''const arma::mat&'', ''const arma::Row<size_t>&''],
      form_const = False\<rparr>"

section \<open>Facts about the detecter and the search\<close>

declare WithGreaterOrEqualNumberOfAdditionalArgs.simps [simp del]
declare probed.simps [simp del]

lemma overload_exact: "overload_resolution [(ExactMatch, r), (EllipsisConversion, s)] = Inr r"
  by (simp add: overload_resolution_def)
lemma overload_ellipsis: "overload_resolution [(EllipsisConversion, s)] = Inr s"
  by (simp add: overload_resolution_def)
lemma overload_pointer: "overload_resolution [(NullPointerConversion, r), (EllipsisConversion, s)] = Inr r"
  by (simp add: overload_resolution_def)

lemma deduce_iff: "deduce f k A \<noteq> None \<longleftrightarrow> (\<exists>Ts. length Ts = k \<and> A = MethodForm f Ts)"
proof
  assume d: "deduce f k A \<noteq> None"
  let ?n = "length (form_prefix f)"
  from d have h: "ret A = form_ret f" "is_const A = form_const f"
    "length (params A) = ?n + k" "take ?n (params A) = form_prefix f"
    by (auto simp: deduce_def Let_def split: if_splits)
  have "params A = form_prefix f @ drop ?n (params A)"
    using h(4) append_take_drop_id [of ?n "params A"] by simp
  then have "A = MethodForm f (drop ?n (params A))"
    using h(1,2) by (simp add: MethodForm_def)
  moreover have "length (drop ?n (params A)) = k" using h(3) by simp
  ultimately show "\<exists>Ts. length Ts = k \<and> A = MethodForm f Ts" by blast
next
  assume "\<exists>Ts. length Ts = k \<and> A = MethodForm f Ts"
  then show "deduce f k A \<noteq> None"
    by (auto simp: deduce_def MethodForm_def)
qed

lemma deduce_0: "deduce f 0 A \<noteq> None \<longleftrightarrow> A = MethodForm f []"
  using deduce_iff [of f 0 A] by simp

lemma MethodFormDetecter_eq: "MethodFormDetecter N = (if N \<le> 7 then Some N else None)"
proof (cases "N \<le> 7")
  case True
  then have "N = 0 \<or> N = 1 \<or> N = 2 \<or> N = 3 \<or> N = 4 \<or> N = 5 \<or> N = 6 \<or> N = 7"
    by arith
  then show ?thesis
    by (elim disjE) (simp_all add: MethodFormDetecter_def)
next
  case False
  then show ?thesis by (simp add: MethodFormDetecter_def)
qed

lemma le_INT_MAX: "N \<le> 7 \<Longrightarrow> N \<le> INT_MAX"
  by (simp add: INT_MAX_def)

lemma MFD_eq:
  "MFD N =
     (if INT_MAX < N then Inl NarrowingConversion
      else if N \<le> 7 then Inr N else Inl IncompleteType)"
  by (simp add: MFD_def MethodFormDetecter_eq)

lemma operator_call_iff:
  "(\<exists>t. operator_call f k fs = Inr t) \<longleftrightarrow> length (filter (\<lambda>A. deduce f k A \<noteq> None) fs) = 1"
proof -
  have "(\<lambda>A. deduce f 0 A \<noteq> None) = (\<lambda>A. A = MethodForm f [])"
    by (rule ext) (rule deduce_0)
  then show ?thesis
    by (cases "k = 0") (simp_all add: operator_call_def del: not_None_eq)
qed

lemma address_of_member_eq:
  "address_of_member C METHOD =
     (if member_lookup C METHOD = [] then Inl NoSuchMember else Inr (member_lookup C METHOD))"
  by (simp add: address_of_member_def split: list.splits)

lemma operator_call_not_narrowing: "operator_call f k fs \<noteq> Inl NarrowingConversion"
  by (simp add: operator_call_def)

lemma probe_iff:
  "(\<exists>t. probe METHOD C f N = Inr t) \<longleftrightarrow>
     N \<le> 7 \<and> length (filter (\<lambda>A. deduce f N A \<noteq> None) (member_lookup C METHOD)) = 1"
proof (cases "N \<le> 7 \<and> member_lookup C METHOD \<noteq> []")
  case True
  then have "\<not> INT_MAX < N" by (simp add: INT_MAX_def)
  with True show ?thesis
    using operator_call_iff [of f N "member_lookup C METHOD"]
    by (simp add: probe_def MFD_eq address_of_member_eq)
next
  case False
  then show ?thesis
    by (auto simp: probe_def MFD_eq address_of_member_eq)
qed

lemma probe_narrowing:
  "probe METHOD C f N = Inl NarrowingConversion \<longleftrightarrow> INT_MAX < N"
  using operator_call_not_narrowing [of f N "member_lookup C METHOD"]
  by (auto simp: probe_def MFD_eq address_of_member_eq)

lemma WithNAdditionalArgs_probe:
  assumes "N \<le> INT_MAX"
  shows "WithNAdditionalArgs METHOD C f N = Inr (\<exists>t. probe METHOD C f N = Inr t)"
proof (cases "probe METHOD C f N")
  case (Inl e)
  with assms have "e \<noteq> NarrowingConversion"
    using probe_narrowing [of METHOD C f N] by auto
  with Inl show ?thesis
    by (simp add: WithNAdditionalArgs_def WithNAdditionalArgs_chk_def EnableIfCompilable_def
        overload_ellipsis)
next
  case (Inr t)
  then show ?thesis
    by (simp add: WithNAdditionalArgs_def WithNAdditionalArgs_chk_def EnableIfCompilable_def
        enable_if_def True_value_def overload_exact)
qed

lemma WithNAdditionalArgs_narrowing:
  assumes "INT_MAX < N"
  shows "WithNAdditionalArgs METHOD C f N = Inl NarrowingConversion"
proof -
  have "probe METHOD C f N = Inl NarrowingConversion"
    using assms by (simp add: probe_narrowing)
  then show ?thesis
    by (simp add: WithNAdditionalArgs_def WithNAdditionalArgs_chk_def EnableIfCompilable_def)
qed

lemma WithN_eq:
  "N \<le> INT_MAX \<Longrightarrow> WithNAdditionalArgs METHOD C f N =
     Inr (N \<le> 7 \<and> length (filter (\<lambda>A. deduce f N A \<noteq> None) (member_lookup C METHOD)) = 1)"
  by (simp only: WithNAdditionalArgs_probe probe_iff)

lemma search_type_eq:
  "N \<le> INT_MAX \<Longrightarrow> WithGreaterOrEqualNumberOfAdditionalArgs_type METHOD C f N =
     Inr (if WithNAdditionalArgs METHOD C f N = Inr True then true_type
          else if N < 7 then WithGreaterOrEqual (N + 1) else false_type)"
  by (simp add: WithGreaterOrEqualNumberOfAdditionalArgs_type_def WithNAdditionalArgs_probe
      conditional_def MaxMFDAdditionalArgsCount_def)

lemma search_step:
  "N \<le> INT_MAX \<Longrightarrow> WithGreaterOrEqualNumberOfAdditionalArgs METHOD C f N =
     (if WithNAdditionalArgs METHOD C f N = Inr True then Inr True
      else if N < 7 then WithGreaterOrEqualNumberOfAdditionalArgs METHOD C f (Suc N)
      else Inr False)"
  by (subst WithGreaterOrEqualNumberOfAdditionalArgs.simps) (simp add: search_type_eq)

lemma probed_step:
  "probed METHOD C f N =
     N # (if WithNAdditionalArgs METHOD C f N \<noteq> Inr True \<and> N < 7
          then probed METHOD C f (Suc N) else [])"
proof (cases "N \<le> INT_MAX")
  case True
  then show ?thesis
    by (subst probed.simps) (simp add: search_type_eq)
next
  case False
  then have "WithGreaterOrEqualNumberOfAdditionalArgs_type METHOD C f N = Inl NarrowingConversion"
    by (simp add: WithGreaterOrEqualNumberOfAdditionalArgs_type_def WithNAdditionalArgs_narrowing)
  moreover from False have "\<not> N < 7" by (simp add: INT_MAX_def)
  ultimately show ?thesis
    by (subst probed.simps) simp
qed

lemma search_step_le:
  "N \<le> 7 \<Longrightarrow> WithGreaterOrEqualNumberOfAdditionalArgs METHOD C f N =
     (if WithNAdditionalArgs METHOD C f N = Inr True then Inr True
      else if N < 7 then WithGreaterOrEqualNumberOfAdditionalArgs METHOD C f (Suc N)
      else Inr False)"
  by (rule search_step) (rule le_INT_MAX)

lemma WithN_bool:
  "N \<le> 7 \<Longrightarrow> WithNAdditionalArgs METHOD C f N \<noteq> Inr True
     \<longleftrightarrow> WithNAdditionalArgs METHOD C f N = Inr False"
  using WithNAdditionalArgs_probe [OF le_INT_MAX, of N METHOD C f] by auto

lemma search_char:
  "N \<le> 7 \<Longrightarrow> WithGreaterOrEqualNumberOfAdditionalArgs METHOD C f N =
     Inr (\<exists>K. N \<le> K \<and> K \<le> 7 \<and> WithNAdditionalArgs METHOD C f K = Inr True)"
proof (induction "7 - N" arbitrary: N)
  case 0
  then have N: "N = 7" by simp
  have "(\<exists>K. (7::nat) \<le> K \<and> K \<le> 7 \<and> WithNAdditionalArgs METHOD C f K = Inr True) \<longleftrightarrow>
        WithNAdditionalArgs METHOD C f 7 = Inr True"
    using le_antisym by blast
  moreover have "WithGreaterOrEqualNumberOfAdditionalArgs METHOD C f 7 =
      (if WithNAdditionalArgs METHOD C f 7 = Inr True then Inr True else Inr False)"
    using search_step_le [of 7 METHOD C f] by simp
  ultimately show ?case unfolding N by simp
next
  case (Suc d)
  then have lt: "N < 7" and d: "d = 7 - Suc N" and le: "Suc N \<le> 7" by simp_all
  show ?case
  proof (cases "WithNAdditionalArgs METHOD C f N = Inr True")
    case True
    then have "WithGreaterOrEqualNumberOfAdditionalArgs METHOD C f N = Inr True"
      using search_step_le [OF Suc.prems, of METHOD C f] by simp
    moreover have "\<exists>K. N \<le> K \<and> K \<le> 7 \<and> WithNAdditionalArgs METHOD C f K = Inr True"
      using True Suc.prems by blast
    ultimately show ?thesis by simp
  next
    case False
    have "(\<exists>K. N \<le> K \<and> K \<le> 7 \<and> WithNAdditionalArgs METHOD C f K = Inr True) \<longleftrightarrow>
          (\<exists>K. Suc N \<le> K \<and> K \<le> 7 \<and> WithNAdditionalArgs METHOD C f K = Inr True)"
    proof
      assume "\<exists>K. N \<le> K \<and> K \<le> 7 \<and> WithNAdditionalArgs METHOD C f K = Inr True"
      then obtain K where K: "N \<le> K" "K \<le> 7" "WithNAdditionalArgs METHOD C f K = Inr True"
        by blast
      with False have "K \<noteq> N" by auto
      with K(1) have "Suc N \<le> K" by simp
      with K show "\<exists>K. Suc N \<le> K \<and> K \<le> 7 \<and> WithNAdditionalArgs METHOD C f K = Inr True"
        by blast
    next
      assume "\<exists>K. Suc N \<le> K \<and> K \<le> 7 \<and> WithNAdditionalArgs METHOD C f K = Inr True"
      then show "\<exists>K. N \<le> K \<and> K \<le> 7 \<and> WithNAdditionalArgs METHOD C f K = Inr True"
        using Suc_leD by blast
    qed
    moreover have "WithGreaterOrEqualNumberOfAdditionalArgs METHOD C f N =
        WithGreaterOrEqualNumberOfAdditionalArgs METHOD C f (Suc N)"
      using False lt search_step_le [OF Suc.prems, of METHOD C f] by simp
    ultimately show ?thesis
      using Suc.hyps(1) [OF d le] by simp
  qed
qed

lemma search_beyond:
  assumes "7 < N" and "N \<le> INT_MAX"
  shows "WithGreaterOrEqualNumberOfAdditionalArgs METHOD C f N = Inr False"
proof -
  have "WithNAdditionalArgs METHOD C f N = Inr False"
    using assms by (simp add: WithN_eq)
  then show ?thesis
    using assms search_step [OF assms(2), of METHOD C f] by simp
qed

lemma probed_not_Nil: "probed METHOD C f N \<noteq> []"
  by (subst probed_step) simp

lemma probed_interval:
  "probed METHOD C f N = [N ..< N + length (probed METHOD C f N)]"
proof (induction "7 - N" arbitrary: N)
  case 0
  then have "probed METHOD C f N = [N]" by (subst probed_step) simp
  then show ?case by simp
next
  case (Suc d)
  then have d: "d = 7 - Suc N" by simp
  show ?case
  proof (cases "WithNAdditionalArgs METHOD C f N \<noteq> Inr True \<and> N < 7")
    case True
    have p: "probed METHOD C f N = N # probed METHOD C f (Suc N)"
      using True by (subst probed_step) simp
    let ?l = "length (probed METHOD C f (Suc N))"
    have "N < N + Suc ?l" by simp
    then have "[N ..< N + Suc ?l] = N # [Suc N ..< N + Suc ?l]"
      by (rule upt_conv_Cons)
    then have "[N ..< N + Suc ?l] = N # [Suc N ..< Suc N + ?l]"
      by (simp only: add_Suc_right add_Suc)
    also have "\<dots> = N # probed METHOD C f (Suc N)"
      using Suc.hyps(1) [OF d] by simp
    finally show ?thesis by (simp add: p)
  next
    case False
    then have "probed METHOD C f N = [N]" by (subst probed_step) auto
    then show ?thesis by simp
  qed
qed

lemma probed_bound: "K \<in> set (probed METHOD C f N) \<Longrightarrow> N \<le> 7 \<Longrightarrow> K \<le> 7"
proof (induction "7 - N" arbitrary: N)
  case 0
  then have "probed METHOD C f N = [N]" by (subst probed_step) simp
  with 0 show ?case by simp
next
  case (Suc d)
  then have d: "d = 7 - Suc N" and le: "Suc N \<le> 7" by simp_all
  have "set (probed METHOD C f N) \<subseteq> insert N (set (probed METHOD C f (Suc N)))"
    by (subst probed_step) auto
  with Suc.prems(1) have "K = N \<or> K \<in> set (probed METHOD C f (Suc N))" by auto
  then show ?case using Suc.hyps(1) [OF d _ le] Suc.prems(2) by auto
qed

lemma probed_before_last:
  "K \<in> set (butlast (probed METHOD C f N)) \<Longrightarrow> WithNAdditionalArgs METHOD C f K = Inr False"
proof (induction "7 - N" arbitrary: N)
  case 0
  then have "probed METHOD C f N = [N]" by (subst probed_step) simp
  with 0 show ?case by simp
next
  case (Suc d)
  then have d: "d = 7 - Suc N" by simp
  show ?case
  proof (cases "WithNAdditionalArgs METHOD C f N \<noteq> Inr True \<and> N < 7")
    case True
    have p: "probed METHOD C f N = N # probed METHOD C f (Suc N)"
      using True by (subst probed_step) simp
    have w: "WithNAdditionalArgs METHOD C f N = Inr False"
      using True WithN_bool [of N METHOD C f] by simp
    from Suc.prems have "K = N \<or> K \<in> set (butlast (probed METHOD C f (Suc N)))"
      by (simp add: p probed_not_Nil)
    then show ?thesis using Suc.hyps(1) [OF d] w by blast
  next
    case False
    then have "probed METHOD C f N = [N]" by (subst probed_step) auto
    then show ?thesis using Suc.prems by simp
  qed
qed

lemma probed_last:
  "N \<le> 7 \<Longrightarrow>
   (if WithGreaterOrEqualNumberOfAdditionalArgs METHOD C f N = Inr True
    then WithNAdditionalArgs METHOD C f (last (probed METHOD C f N)) = Inr True
    else last (probed METHOD C f N) = 7)"
proof (induction "7 - N" arbitrary: N)
  case 0
  then have N: "N = 7" by simp
  have p: "probed METHOD C f 7 = [7]" by (subst probed_step) simp
  have s: "WithGreaterOrEqualNumberOfAdditionalArgs METHOD C f 7 =
      (if WithNAdditionalArgs METHOD C f 7 = Inr True then Inr True else Inr False)"
    using search_step_le [of 7 METHOD C f] by simp
  show ?case unfolding N by (simp add: p s)
next
  case (Suc d)
  then have d: "d = 7 - Suc N" and le: "Suc N \<le> 7" and lt: "N < 7" by simp_all
  show ?case
  proof (cases "WithNAdditionalArgs METHOD C f N = Inr True")
    case True
    have p: "probed METHOD C f N = [N]" using True by (subst probed_step) simp
    have s: "WithGreaterOrEqualNumberOfAdditionalArgs METHOD C f N = Inr True"
      using True search_step_le [OF Suc.prems, of METHOD C f] by simp
    show ?thesis using True by (simp add: p s)
  next
    case False
    have p: "probed METHOD C f N = N # probed METHOD C f (Suc N)"
      using False lt by (subst probed_step) simp
    have s: "WithGreaterOrEqualNumberOfAdditionalArgs METHOD C f N =
        WithGreaterOrEqualNumberOfAdditionalArgs METHOD C f (Suc N)"
      using False lt search_step_le [OF Suc.prems, of METHOD C f] by simp
    show ?thesis using Suc.hyps(1) [OF d le] by (simp add: p probed_not_Nil s)
  qed
qed

lemma probed_upto:
  assumes "N \<le> m" and "m \<le> 7"
    and "\<forall>K. N \<le> K \<and> K < m \<longrightarrow> WithNAdditionalArgs METHOD C f K \<noteq> Inr True"
    and "WithNAdditionalArgs METHOD C f m = Inr True \<or> m = 7"
  shows "probed METHOD C f N = [N ..< Suc m]"
  using assms
proof (induction "m - N" arbitrary: N)
  case 0
  then have N: "N = m" by simp
  have "probed METHOD C f m = [m]"
    using "0.prems"(4) by (subst probed_step) auto
  then show ?case unfolding N by simp
next
  case (Suc d)
  then have lt: "N < m" and d: "d = m - Suc N" and le: "Suc N \<le> m" by simp_all
  have nm: "WithNAdditionalArgs METHOD C f N \<noteq> Inr True"
    using Suc.prems(3) lt by blast
  have p: "probed METHOD C f N = N # probed METHOD C f (Suc N)"
    using nm lt Suc.prems(2) by (subst probed_step) simp
  have "\<forall>K. Suc N \<le> K \<and> K < m \<longrightarrow> WithNAdditionalArgs METHOD C f K \<noteq> Inr True"
    using Suc.prems(3) by auto
  then have "probed METHOD C f (Suc N) = [Suc N ..< Suc m]"
    using Suc.hyps(1) [OF d le Suc.prems(2)] Suc.prems(4) by blast
  then show ?case using lt by (simp add: p upt_conv_Cons)
qed

lemma deduce_MethodForm:
  "deduce f N (MethodForm f Ts) \<noteq> None \<longleftrightarrow> N = length Ts"
  by (auto simp: deduce_def MethodForm_def)

lemma HAS_MEM_FUNC_eq:
  "HAS_MEM_FUNC FUNC T sig = Inr (length (filter (\<lambda>A. A = sig) (member_lookup T FUNC)) = 1)"
proof (cases "length (filter (\<lambda>A. A = sig) (member_lookup T FUNC)) = 1")
  case True
  then have "member_lookup T FUNC \<noteq> []" by auto
  with True show ?thesis
    by (simp add: HAS_MEM_FUNC_def HAS_MEM_FUNC_chk_def type_check_def address_of_member_eq
        overload_pointer)
next
  case False
  then show ?thesis
    by (simp add: HAS_MEM_FUNC_def HAS_MEM_FUNC_chk_def type_check_def address_of_member_eq
        overload_ellipsis)
qed

lemma lookup_filter_length:
  "length (filter (\<lambda>A. A = sig) (member_lookup T FUNC)) = length (filter (\<lambda>m. m = (FUNC, sig)) T)"
  by (induction T) (auto simp: member_lookup_def)

lemma distinct_filter_eq_length:
  "distinct xs \<Longrightarrow> length (filter (\<lambda>m. m = x) xs) = (if x \<in> set xs then 1 else 0)"
  by (induction xs) auto

lemma search_value:
  "HAS_METHOD_FORM_value METHOD C f =
     Inr (\<exists>N\<le>7. WithNAdditionalArgs METHOD C f N = Inr True)"
  using search_char [of 0 METHOD C f] by (simp add: HAS_METHOD_FORM_value_def)

lemma no_method:
  "member_lookup C METHOD = [] \<Longrightarrow> K \<le> INT_MAX \<Longrightarrow>
     WithNAdditionalArgs METHOD C f K = Inr False"
  by (simp add: WithN_eq)

lemma single_method:
  assumes "member_lookup C METHOD = [MethodForm f Ts]" and "K \<le> INT_MAX"
  shows "WithNAdditionalArgs METHOD C f K = Inr (K = length Ts \<and> K \<le> 7)"
  using deduce_MethodForm [of f K Ts] assms(2)
  by (cases "deduce f K (MethodForm f Ts) = None") (auto simp: WithN_eq assms(1))

lemma two_methods:
  assumes "member_lookup C METHOD = [MethodForm f Ts1, MethodForm f Ts2]
         \<or> member_lookup C METHOD = [MethodForm f Ts2, MethodForm f Ts1]"
    and "length Ts1 \<noteq> length Ts2" and "K \<le> INT_MAX"
  shows "WithNAdditionalArgs METHOD C f K =
           Inr (K \<le> 7 \<and> (K = length Ts1 \<or> K = length Ts2))"
proof -
  have d1: "deduce f K (MethodForm f Ts1) \<noteq> None \<longleftrightarrow> K = length Ts1"
    by (rule deduce_MethodForm)
  have d2: "deduce f K (MethodForm f Ts2) \<noteq> None \<longleftrightarrow> K = length Ts2"
    by (rule deduce_MethodForm)
  have "length (filter (\<lambda>A. deduce f K A \<noteq> None) (member_lookup C METHOD)) = 1
      \<longleftrightarrow> K = length Ts1 \<or> K = length Ts2"
    using assms(1,2) by (elim disjE) (simp_all only: filter.simps d1 d2, auto)
  then show ?thesis using assms(3) by (simp only: WithN_eq)
qed

lemma lookup_Train: "member_lookup class_A ''Train'' = [MethodForm TrainForm [''double'']]"
  by (simp add: class_A_def member_lookup_def MethodForm_def TrainForm_def)

lemma lookup_Predict: "member_lookup class_A ''Predict'' = []"
  by (simp add: class_A_def member_lookup_def)

lemma expansion_iff:
  "HAS_METHOD_FORM METHOD NAME tu = Inr tu' \<longleftrightarrow>
     tu NAME = None
     \<and> NAME \<notin> set template_parameter_names \<and> NAME \<notin> set member_names
     \<and> list_all (\<lambda>u. unqualified_lookup tu NAME (fst u) = snd u) body_uses
     \<and> tu' = tu(NAME \<mapsto> detector METHOD)"
  by (auto simp: HAS_METHOD_FORM_def)

lemma body_uses_iff:
  "list_all (\<lambda>u. unqualified_lookup tu NAME (fst u) = snd u) body_uses \<longleftrightarrow>
     NAME \<noteq> ''mlpack'' \<and> NAME \<noteq> ''std'' \<and> NAME \<noteq> ''size_t''
     \<and> tu ''mlpack'' = Some header_name \<and> tu ''std'' = Some header_name
     \<and> tu ''size_t'' = Some header_name"
  by (auto simp: body_uses_def unqualified_lookup_def member_names_def
      template_parameter_names_def split: option.splits)

lemma detector_value_update:
  "detector_value (tu(NAME \<mapsto> detector METHOD)) NAME args = HAS_METHOD_FORM_struct METHOD args"
  by (simp add: detector_value_def)

lemma detector_value_other:
  "NAME' \<noteq> NAME \<Longrightarrow>
     detector_value (tu(NAME' \<mapsto> d)) NAME args = detector_value tu NAME args"
  by (simp add: detector_value_def)

lemma struct_value:
  "HAS_METHOD_FORM_struct METHOD [TypeArgument C, TemplateArgument f] =
     Inr (\<exists>N\<le>7. WithNAdditionalArgs METHOD C f N = Inr True)"
  by (simp add: HAS_METHOD_FORM_struct_def search_value)

section \<open>The bounded search (C1)\<close>

text \<open>
  C1. For every class and method form, \<open>value\<close> of the generated detector is true if and
  only if the fixed-arity detector \<open>WithNAdditionalArgs<N>\<close> is true for some count \<open>N\<close>
  from 0 to 7. The counts probed are \<open>0, 1, 2, ...\<close> in increasing order without a gap;
  every probed count but the last one did not match; when the result is true the last
  probed count is a match (nothing is probed after the first match), and otherwise all
  of 0 to 7 were probed.
\<close>

theorem search_true_iff_some_count_matches:
  "HAS_METHOD_FORM_value METHOD C f =
     Inr (\<exists>N\<le>7. WithNAdditionalArgs METHOD C f N = Inr True)
   \<and> probed METHOD C f 0 = [0 ..< length (probed METHOD C f 0)]
   \<and> (\<forall>K \<in> set (butlast (probed METHOD C f 0)). WithNAdditionalArgs METHOD C f K = Inr False)
   \<and> (if HAS_METHOD_FORM_value METHOD C f = Inr True
      then WithNAdditionalArgs METHOD C f (last (probed METHOD C f 0)) = Inr True
      else probed METHOD C f 0 = [0 ..< 8])"
proof (intro conjI)
  show "HAS_METHOD_FORM_value METHOD C f =
     Inr (\<exists>N\<le>7. WithNAdditionalArgs METHOD C f N = Inr True)"
    by (rule search_value)
  show iv: "probed METHOD C f 0 = [0 ..< length (probed METHOD C f 0)]"
    using probed_interval [of METHOD C f 0] by simp
  show "\<forall>K \<in> set (butlast (probed METHOD C f 0)). WithNAdditionalArgs METHOD C f K = Inr False"
    using probed_before_last by blast
  show "if HAS_METHOD_FORM_value METHOD C f = Inr True
      then WithNAdditionalArgs METHOD C f (last (probed METHOD C f 0)) = Inr True
      else probed METHOD C f 0 = [0 ..< 8]"
  proof (cases "HAS_METHOD_FORM_value METHOD C f = Inr True")
    case True
    then show ?thesis
      using probed_last [of 0 METHOD C f] by (simp add: HAS_METHOD_FORM_value_def)
  next
    case False
    let ?l = "length (probed METHOD C f 0)"
    from False have l7: "last (probed METHOD C f 0) = 7"
      using probed_last [of 0 METHOD C f] by (simp add: HAS_METHOD_FORM_value_def)
    have pos: "0 < ?l" using probed_not_Nil [of METHOD C f 0] by simp
    have "last [0 ..< ?l] = ?l - 1" using pos by (simp add: last_upt)
    with iv l7 have "?l = 8" using pos by simp
    with iv have "probed METHOD C f 0 = [0 ..< 8]" by simp
    with False show ?thesis by simp
  qed
qed

text \<open>
  The example of the header's documentation: \<open>Train\<close> has one argument after the two of
  \<open>TrainForm\<close>, so the search probes the counts 0 and 1 and stops.
\<close>

theorem search_true_iff_some_count_matches_witness:
  "HAS_METHOD_FORM_value ''Train'' class_A TrainForm = Inr True
   \<and> probed ''Train'' class_A TrainForm 0 = [0, 1]
   \<and> WithNAdditionalArgs ''Train'' class_A TrainForm 0 = Inr False
   \<and> WithNAdditionalArgs ''Train'' class_A TrainForm 1 = Inr True"
proof -
  have w: "WithNAdditionalArgs ''Train'' class_A TrainForm K = Inr (K = 1)" if "K \<le> 7" for K
    using single_method [OF lookup_Train le_INT_MAX [OF that]] that by auto
  have "probed ''Train'' class_A TrainForm 0 = [0 ..< Suc 1]"
    by (rule probed_upto) (simp_all add: w)
  then have p: "probed ''Train'' class_A TrainForm 0 = [0, 1]"
    by (simp add: upt_conv_Cons)
  have "\<exists>N\<le>7. WithNAdditionalArgs ''Train'' class_A TrainForm N = Inr True"
    by (rule exI [of _ 1]) (simp add: w)
  then have v: "HAS_METHOD_FORM_value ''Train'' class_A TrainForm = Inr True"
    by (simp add: search_value)
  show ?thesis
    using search_true_iff_some_count_matches [of "''Train''" class_A TrainForm]
    unfolding p v by simp
qed

section \<open>The fixed-arity detector (C2, C3)\<close>

text \<open>
  C2. For every class, method form and count \<open>N\<close> from 0 to 7,
  \<open>WithNAdditionalArgs<N>::value\<close> is true if and only if the call of the detecter's
  \<open>operator()\<close>, whose one parameter has the type \<open>MethodForm<Class, T1, ..., TN>\<close>, with
  the argument \<open>&Class::METHOD\<close> is well-formed; that is, if and only if exactly one member
  function named \<open>METHOD\<close> has the type \<open>MethodForm<Class, Ts...>\<close> for some \<open>N\<close> types.
  It is false when the class has no such member, when no member of that name has \<open>N\<close>
  parameters after the leading ones, and when none has the qualifier of the form.
\<close>

theorem fixed_arity_true_iff_call_well_formed:
  assumes "N \<le> 7"
  shows "WithNAdditionalArgs METHOD C f N =
           Inr (\<exists>fs t. address_of_member C METHOD = Inr fs \<and> operator_call f N fs = Inr t)
       \<and> WithNAdditionalArgs METHOD C f N =
           Inr (length (filter (\<lambda>A. \<exists>Ts. length Ts = N \<and> A = MethodForm f Ts)
                  (member_lookup C METHOD)) = 1)
       \<and> (member_lookup C METHOD = [] \<longrightarrow> WithNAdditionalArgs METHOD C f N = Inr False)
       \<and> ((\<forall>A \<in> set (member_lookup C METHOD).
              length (params A) \<noteq> length (form_prefix f) + N)
            \<longrightarrow> WithNAdditionalArgs METHOD C f N = Inr False)
       \<and> ((\<forall>A \<in> set (member_lookup C METHOD). is_const A \<noteq> form_const f)
            \<longrightarrow> WithNAdditionalArgs METHOD C f N = Inr False)"
proof (intro conjI impI)
  note i = le_INT_MAX [OF assms]
  have ni: "\<not> INT_MAX < N" using i by simp
  have "(\<exists>t. probe METHOD C f N = Inr t) \<longleftrightarrow>
        (\<exists>fs t. address_of_member C METHOD = Inr fs \<and> operator_call f N fs = Inr t)"
    using assms ni by (simp add: probe_def MFD_eq split: sum.splits)
  then show "WithNAdditionalArgs METHOD C f N =
      Inr (\<exists>fs t. address_of_member C METHOD = Inr fs \<and> operator_call f N fs = Inr t)"
    by (simp only: WithNAdditionalArgs_probe [OF i])
  have "(\<lambda>A. deduce f N A \<noteq> None) = (\<lambda>A. \<exists>Ts. length Ts = N \<and> A = MethodForm f Ts)"
    by (rule ext) (rule deduce_iff)
  then show "WithNAdditionalArgs METHOD C f N =
      Inr (length (filter (\<lambda>A. \<exists>Ts. length Ts = N \<and> A = MethodForm f Ts)
             (member_lookup C METHOD)) = 1)"
    using assms by (simp only: WithN_eq [OF i] simp_thms)
  show "WithNAdditionalArgs METHOD C f N = Inr False" if "member_lookup C METHOD = []"
    using that i by (rule no_method)
  show "WithNAdditionalArgs METHOD C f N = Inr False"
    if "\<forall>A \<in> set (member_lookup C METHOD). length (params A) \<noteq> length (form_prefix f) + N"
  proof -
    have "filter (\<lambda>A. deduce f N A \<noteq> None) (member_lookup C METHOD) = []"
      using that by (auto simp: filter_empty_conv deduce_def Let_def)
    then show ?thesis by (simp only: WithN_eq [OF i]) simp
  qed
  show "WithNAdditionalArgs METHOD C f N = Inr False"
    if "\<forall>A \<in> set (member_lookup C METHOD). is_const A \<noteq> form_const f"
  proof -
    have "filter (\<lambda>A. deduce f N A \<noteq> None) (member_lookup C METHOD) = []"
      using that by (auto simp: filter_empty_conv deduce_def Let_def)
    then show ?thesis by (simp only: WithN_eq [OF i]) simp
  qed
qed

text \<open>
  In the documented example the count 1 matches \<open>Train\<close>; a name the class does not
  declare gives false.
\<close>

theorem fixed_arity_true_iff_call_well_formed_witness:
  "(1::nat) \<le> 7
   \<and> WithNAdditionalArgs ''Train'' class_A TrainForm 1 = Inr True
   \<and> (\<exists>fs t. address_of_member class_A ''Train'' = Inr fs \<and> operator_call TrainForm 1 fs = Inr t)
   \<and> member_lookup class_A ''Predict'' = []
   \<and> WithNAdditionalArgs ''Predict'' class_A TrainForm 1 = Inr False"
proof -
  have le: "(1::nat) \<le> 7" by simp
  have v: "WithNAdditionalArgs ''Train'' class_A TrainForm 1 = Inr True"
    using single_method [OF lookup_Train le_INT_MAX [OF le]] by simp
  have e: "member_lookup class_A ''Predict'' = []" by (rule lookup_Predict)
  have a: "\<exists>fs t. address_of_member class_A ''Train'' = Inr fs
      \<and> operator_call TrainForm 1 fs = Inr t"
    using v fixed_arity_true_iff_call_well_formed [OF le, of "''Train''" class_A TrainForm]
    by simp
  have b: "WithNAdditionalArgs ''Predict'' class_A TrainForm 1 = Inr False"
    using e fixed_arity_true_iff_call_well_formed [OF le, of "''Predict''" class_A TrainForm]
    by blast
  show ?thesis
    by (intro conjI le v a e b)
qed

text \<open>
  C3. For a count that fits \<open>int\<close>, a probe that is ill-formed for whatever reason makes
  \<open>WithNAdditionalArgs<N>::value\<close> false, and that value is a boolean, never an ill-formed
  construct. Every count the detector probes fits \<open>int\<close>, and the value of the whole
  detector is always a boolean. For a class without any member of the probed name every
  such count gives false and the search gives false.
\<close>

theorem probe_failure_yields_false:
  "(N \<le> INT_MAX \<longrightarrow>
      (\<exists>b. WithNAdditionalArgs METHOD C f N = Inr b)
      \<and> (\<forall>e. probe METHOD C f N = Inl e \<longrightarrow> WithNAdditionalArgs METHOD C f N = Inr False))
   \<and> (\<forall>K \<in> set (probed METHOD C f 0). K \<le> INT_MAX)
   \<and> (\<exists>b. HAS_METHOD_FORM_value METHOD C f = Inr b)
   \<and> (member_lookup C METHOD = [] \<longrightarrow>
        (\<forall>K \<le> INT_MAX. WithNAdditionalArgs METHOD C f K = Inr False)
        \<and> HAS_METHOD_FORM_value METHOD C f = Inr False)"
proof (intro conjI allI impI ballI)
  show "\<exists>b. WithNAdditionalArgs METHOD C f N = Inr b" if "N \<le> INT_MAX"
    using that by (simp add: WithNAdditionalArgs_probe)
  show "WithNAdditionalArgs METHOD C f N = Inr False"
    if "N \<le> INT_MAX" and "probe METHOD C f N = Inl e" for e
    using that by (simp add: WithNAdditionalArgs_probe)
  show "K \<le> INT_MAX" if "K \<in> set (probed METHOD C f 0)" for K
    using probed_bound [OF that] by (simp add: le_INT_MAX)
  show "\<exists>b. HAS_METHOD_FORM_value METHOD C f = Inr b"
    by (simp add: search_value)
  show "WithNAdditionalArgs METHOD C f K = Inr False"
    if "member_lookup C METHOD = []" and "K \<le> INT_MAX" for K
    using that by (rule no_method)
  show "HAS_METHOD_FORM_value METHOD C f = Inr False" if "member_lookup C METHOD = []"
    using no_method [OF that le_INT_MAX] by (simp add: search_value)
qed

text \<open>
  \<open>A\<close> has no member \<open>Predict\<close>: the probe fails on the member name. At the count 9 the
  probe fails on the incomplete detecter type. Both give false.
\<close>

theorem probe_failure_yields_false_witness:
  "(3::nat) \<le> INT_MAX
   \<and> probe ''Predict'' class_A TrainForm 3 = Inl NoSuchMember
   \<and> WithNAdditionalArgs ''Predict'' class_A TrainForm 3 = Inr False
   \<and> (9::nat) \<le> INT_MAX
   \<and> probe ''Train'' class_A TrainForm 9 = Inl IncompleteType
   \<and> WithNAdditionalArgs ''Train'' class_A TrainForm 9 = Inr False
   \<and> member_lookup class_A ''Predict'' = []
   \<and> HAS_METHOD_FORM_value ''Predict'' class_A TrainForm = Inr False"
proof -
  have i3: "(3::nat) \<le> INT_MAX" and i9: "(9::nat) \<le> INT_MAX" by (simp_all add: INT_MAX_def)
  have e: "member_lookup class_A ''Predict'' = []" by (rule lookup_Predict)
  have p: "probe ''Predict'' class_A TrainForm 3 = Inl NoSuchMember"
    by (simp add: probe_def MFD_eq INT_MAX_def address_of_member_eq e)
  have q: "probe ''Train'' class_A TrainForm 9 = Inl IncompleteType"
    by (simp add: probe_def MFD_eq INT_MAX_def)
  have a: "WithNAdditionalArgs ''Predict'' class_A TrainForm 3 = Inr False"
    using i3 p probe_failure_yields_false [of 3 "''Predict''" class_A TrainForm] by blast
  have b: "WithNAdditionalArgs ''Train'' class_A TrainForm 9 = Inr False"
    using i9 q probe_failure_yields_false [of 9 "''Train''" class_A TrainForm] by blast
  have c: "HAS_METHOD_FORM_value ''Predict'' class_A TrainForm = Inr False"
    using e probe_failure_yields_false [of 0 "''Predict''" class_A TrainForm] by blast
  show ?thesis
    by (intro conjI i3 p a i9 q b e c)
qed

section \<open>The bound of the search (C4, C5)\<close>

text \<open>
  C4. The detector's search, which starts at the count 0, returns a boolean, and so does
  the search from every starting count that fits \<open>int\<close>. The type of the search is the next
  instance of the search only for a count below \<open>MaxMFDAdditionalArgsCount\<close>, and that
  instance is the one for the count plus one; at the bound a failed probe gives
  \<open>std::false_type\<close> and the result false. From the count 0 the search probes no count
  above the bound and at most eight counts.
\<close>

theorem search_never_exceeds_bound:
  "(N \<le> INT_MAX \<longrightarrow> (\<exists>b. WithGreaterOrEqualNumberOfAdditionalArgs METHOD C f N = Inr b))
   \<and> (\<exists>b. HAS_METHOD_FORM_value METHOD C f = Inr b)
   \<and> (WithGreaterOrEqualNumberOfAdditionalArgs_type METHOD C f N = Inr (WithGreaterOrEqual M)
        \<longrightarrow> N < MaxMFDAdditionalArgsCount \<and> M = N + 1)
   \<and> (WithNAdditionalArgs METHOD C f MaxMFDAdditionalArgsCount = Inr False
        \<longrightarrow> WithGreaterOrEqualNumberOfAdditionalArgs_type METHOD C f MaxMFDAdditionalArgsCount
              = Inr false_type
          \<and> WithGreaterOrEqualNumberOfAdditionalArgs METHOD C f MaxMFDAdditionalArgsCount
              = Inr False)
   \<and> (\<forall>K \<in> set (probed METHOD C f 0). K \<le> MaxMFDAdditionalArgsCount)
   \<and> length (probed METHOD C f 0) \<le> MaxMFDAdditionalArgsCount + 1"
proof (intro conjI impI ballI)
  show "\<exists>b. WithGreaterOrEqualNumberOfAdditionalArgs METHOD C f N = Inr b" if "N \<le> INT_MAX"
  proof (cases "N \<le> 7")
    case True
    then show ?thesis using search_char [of N METHOD C f] by simp
  next
    case False
    then have "WithGreaterOrEqualNumberOfAdditionalArgs METHOD C f N = Inr False"
      using search_beyond [of N METHOD C f] that by simp
    then show ?thesis by blast
  qed
  show "\<exists>b. HAS_METHOD_FORM_value METHOD C f = Inr b"
    by (simp add: search_value)
  show "N < MaxMFDAdditionalArgsCount"
    if "WithGreaterOrEqualNumberOfAdditionalArgs_type METHOD C f N = Inr (WithGreaterOrEqual M)"
    using that
    by (auto simp: WithGreaterOrEqualNumberOfAdditionalArgs_type_def conditional_def
        split: sum.splits if_splits)
  show "M = N + 1"
    if "WithGreaterOrEqualNumberOfAdditionalArgs_type METHOD C f N = Inr (WithGreaterOrEqual M)"
    using that
    by (auto simp: WithGreaterOrEqualNumberOfAdditionalArgs_type_def conditional_def
        split: sum.splits if_splits)
  show "WithGreaterOrEqualNumberOfAdditionalArgs_type METHOD C f MaxMFDAdditionalArgsCount
      = Inr false_type"
    if "WithNAdditionalArgs METHOD C f MaxMFDAdditionalArgsCount = Inr False"
    using that
    by (simp add: WithGreaterOrEqualNumberOfAdditionalArgs_type_def conditional_def)
  show "WithGreaterOrEqualNumberOfAdditionalArgs METHOD C f MaxMFDAdditionalArgsCount = Inr False"
    if "WithNAdditionalArgs METHOD C f MaxMFDAdditionalArgsCount = Inr False"
    using that search_step_le [of 7 METHOD C f]
    by (simp add: MaxMFDAdditionalArgsCount_def)
  show "K \<le> MaxMFDAdditionalArgsCount" if "K \<in> set (probed METHOD C f 0)" for K
    using that probed_bound [of K METHOD C f 0] by (simp add: MaxMFDAdditionalArgsCount_def)
  show "length (probed METHOD C f 0) \<le> MaxMFDAdditionalArgsCount + 1"
  proof -
    let ?l = "length (probed METHOD C f 0)"
    have iv: "probed METHOD C f 0 = [0 ..< ?l]"
      using probed_interval [of METHOD C f 0] by simp
    have pos: "0 < ?l" using probed_not_Nil [of METHOD C f 0] by simp
    then have "?l - 1 \<in> set [0 ..< ?l]" by simp
    then have "?l - 1 \<in> set (probed METHOD C f 0)" using iv by simp
    then have "?l - 1 \<le> 7" using probed_bound [of "?l - 1" METHOD C f 0] by simp
    then show ?thesis by (simp add: MaxMFDAdditionalArgsCount_def)
  qed
qed

text \<open>
  A name the class does not declare: all eight counts are probed, the step from 6 leads
  to 7, and at 7 the result is false.
\<close>

theorem search_never_exceeds_bound_witness:
  "(6::nat) \<le> INT_MAX
   \<and> WithGreaterOrEqualNumberOfAdditionalArgs_type ''Predict'' class_A TrainForm 6
     = Inr (WithGreaterOrEqual 7)
   \<and> (6::nat) < MaxMFDAdditionalArgsCount
   \<and> (\<exists>b. WithGreaterOrEqualNumberOfAdditionalArgs ''Predict'' class_A TrainForm 6 = Inr b)
   \<and> WithNAdditionalArgs ''Predict'' class_A TrainForm MaxMFDAdditionalArgsCount = Inr False
   \<and> WithGreaterOrEqualNumberOfAdditionalArgs ''Predict'' class_A TrainForm
        MaxMFDAdditionalArgsCount = Inr False
   \<and> probed ''Predict'' class_A TrainForm 0 = [0, 1, 2, 3, 4, 5, 6, 7]
   \<and> length (probed ''Predict'' class_A TrainForm 0) \<le> MaxMFDAdditionalArgsCount + 1"
proof -
  have i: "(6::nat) \<le> INT_MAX" by (simp add: INT_MAX_def)
  have n: "WithNAdditionalArgs ''Predict'' class_A TrainForm K = Inr False" if "K \<le> 7" for K
    using no_method [OF lookup_Predict le_INT_MAX [OF that]] .
  have t: "WithGreaterOrEqualNumberOfAdditionalArgs_type ''Predict'' class_A TrainForm 6
     = Inr (WithGreaterOrEqual 7)"
    by (simp add: search_type_eq [OF i] n)
  have w: "WithNAdditionalArgs ''Predict'' class_A TrainForm MaxMFDAdditionalArgsCount
     = Inr False"
    by (simp add: MaxMFDAdditionalArgsCount_def n)
  have "probed ''Predict'' class_A TrainForm 0 = [0 ..< Suc 7]"
    by (rule probed_upto) (simp_all add: n)
  then have p: "probed ''Predict'' class_A TrainForm 0 = [0, 1, 2, 3, 4, 5, 6, 7]"
    by (simp add: upt_conv_Cons)
  note T = search_never_exceeds_bound [of 6 "''Predict''" class_A TrainForm 7]
  have a: "(6::nat) < MaxMFDAdditionalArgsCount" using t T by blast
  have x: "\<exists>b. WithGreaterOrEqualNumberOfAdditionalArgs ''Predict'' class_A TrainForm 6 = Inr b"
    using i T by blast
  have b: "WithGreaterOrEqualNumberOfAdditionalArgs ''Predict'' class_A TrainForm
        MaxMFDAdditionalArgsCount = Inr False"
    using w T by blast
  have c: "length (probed ''Predict'' class_A TrainForm 0) \<le> MaxMFDAdditionalArgsCount + 1"
    using T by blast
  show ?thesis
    by (intro conjI i t a x w b p c)
qed

text \<open>
  C5. The bound is 7 and is inclusive. For a class whose only member of the probed name
  has the type \<open>MethodForm<Class, Ts...>\<close>, the fixed-arity detector at a count that fits
  \<open>int\<close> is true exactly at the count \<open>length Ts\<close> when that is at most 7, and the search is
  true if and only if \<open>length Ts \<le> 7\<close>: true for seven additional arguments, false for
  eight.
\<close>

theorem bound_is_seven_inclusive:
  assumes "member_lookup C METHOD = [MethodForm f Ts]"
  shows "MaxMFDAdditionalArgsCount = 7
       \<and> (N \<le> INT_MAX \<longrightarrow>
            WithNAdditionalArgs METHOD C f N = Inr (N = length Ts \<and> N \<le> 7))
       \<and> HAS_METHOD_FORM_value METHOD C f = Inr (length Ts \<le> 7)"
proof (intro conjI impI)
  show "MaxMFDAdditionalArgsCount = 7" by (rule MaxMFDAdditionalArgsCount_def)
  show "WithNAdditionalArgs METHOD C f N = Inr (N = length Ts \<and> N \<le> 7)" if "N \<le> INT_MAX"
    using assms that by (rule single_method)
  have w: "WithNAdditionalArgs METHOD C f K = Inr (K = length Ts \<and> K \<le> 7)" if "K \<le> 7" for K
    using single_method [OF assms le_INT_MAX [OF that]] .
  have "(\<exists>K\<le>7. WithNAdditionalArgs METHOD C f K = Inr True) \<longleftrightarrow> length Ts \<le> 7"
    by (auto simp: w)
  then show "HAS_METHOD_FORM_value METHOD C f = Inr (length Ts \<le> 7)"
    by (simp add: search_value)
qed

text \<open>
  A method with seven arguments after the two of \<open>TrainForm\<close> is found; one with eight
  is not, neither by the search nor at the count 8 itself.
\<close>

theorem bound_is_seven_inclusive_witness:
  "member_lookup [(''f'', MethodForm TrainForm [''a'', ''b'', ''c'', ''d'', ''e'', ''f'', ''g''])] ''f''
     = [MethodForm TrainForm [''a'', ''b'', ''c'', ''d'', ''e'', ''f'', ''g'']]
   \<and> HAS_METHOD_FORM_value ''f''
        [(''f'', MethodForm TrainForm [''a'', ''b'', ''c'', ''d'', ''e'', ''f'', ''g''])] TrainForm
     = Inr True
   \<and> member_lookup
        [(''f'', MethodForm TrainForm [''a'', ''b'', ''c'', ''d'', ''e'', ''f'', ''g'', ''h''])] ''f''
     = [MethodForm TrainForm [''a'', ''b'', ''c'', ''d'', ''e'', ''f'', ''g'', ''h'']]
   \<and> HAS_METHOD_FORM_value ''f''
        [(''f'', MethodForm TrainForm [''a'', ''b'', ''c'', ''d'', ''e'', ''f'', ''g'', ''h''])] TrainForm
     = Inr False
   \<and> (8::nat) \<le> INT_MAX
   \<and> WithNAdditionalArgs ''f''
        [(''f'', MethodForm TrainForm [''a'', ''b'', ''c'', ''d'', ''e'', ''f'', ''g'', ''h''])] TrainForm 8
     = Inr False"
proof -
  let ?T7 = "[''a'', ''b'', ''c'', ''d'', ''e'', ''f'', ''g'']"
  let ?T8 = "[''a'', ''b'', ''c'', ''d'', ''e'', ''f'', ''g'', ''h'']"
  have l7: "member_lookup [(''f'', MethodForm TrainForm ?T7)] ''f'' = [MethodForm TrainForm ?T7]"
    by (simp add: member_lookup_def)
  have l8: "member_lookup [(''f'', MethodForm TrainForm ?T8)] ''f'' = [MethodForm TrainForm ?T8]"
    by (simp add: member_lookup_def)
  have i: "(8::nat) \<le> INT_MAX" by (simp add: INT_MAX_def)
  have v7: "HAS_METHOD_FORM_value ''f'' [(''f'', MethodForm TrainForm ?T7)] TrainForm = Inr True"
    using bound_is_seven_inclusive [OF l7, of 0] by simp
  have v8: "HAS_METHOD_FORM_value ''f'' [(''f'', MethodForm TrainForm ?T8)] TrainForm = Inr False"
    using bound_is_seven_inclusive [OF l8, of 0] by simp
  have w8: "WithNAdditionalArgs ''f'' [(''f'', MethodForm TrainForm ?T8)] TrainForm 8 = Inr False"
    using i bound_is_seven_inclusive [OF l8, of 8] by simp
  show ?thesis
    by (intro conjI l7 v7 l8 v8 i w8)
qed

section \<open>The fixed-signature detector (C6)\<close>

text \<open>
  C6. \<open>NAME<T, sig>::value\<close> of the struct that \<open>HAS_MEM_FUNC(FUNC, NAME)\<close> generates is
  true if and only if exactly one member function of \<open>T\<close> named \<open>FUNC\<close> has the type \<open>sig\<close>;
  for a class that declares no member twice, if and only if \<open>T\<close> declares \<open>FUNC\<close> with the
  type \<open>sig\<close>. It is false when every member named \<open>FUNC\<close> differs from \<open>sig\<close> in its
  return type or in the number of its parameters.
\<close>

theorem HAS_MEM_FUNC_exact_signature:
  "HAS_MEM_FUNC FUNC T sig =
     Inr (length (filter (\<lambda>A. A = sig) (member_lookup T FUNC)) = 1)
   \<and> (distinct T \<longrightarrow> HAS_MEM_FUNC FUNC T sig = Inr ((FUNC, sig) \<in> set T))
   \<and> ((\<forall>A \<in> set (member_lookup T FUNC).
          ret A \<noteq> ret sig \<or> length (params A) \<noteq> length (params sig))
        \<longrightarrow> HAS_MEM_FUNC FUNC T sig = Inr False)"
proof (intro conjI impI)
  show "HAS_MEM_FUNC FUNC T sig =
     Inr (length (filter (\<lambda>A. A = sig) (member_lookup T FUNC)) = 1)"
    by (rule HAS_MEM_FUNC_eq)
  show "HAS_MEM_FUNC FUNC T sig = Inr ((FUNC, sig) \<in> set T)" if "distinct T"
    using distinct_filter_eq_length [OF that, of "(FUNC, sig)"]
    by (simp add: HAS_MEM_FUNC_eq lookup_filter_length)
  show "HAS_MEM_FUNC FUNC T sig = Inr False"
    if "\<forall>A \<in> set (member_lookup T FUNC).
          ret A \<noteq> ret sig \<or> length (params A) \<noteq> length (params sig)"
  proof -
    have "filter (\<lambda>A. A = sig) (member_lookup T FUNC) = []"
      using that by (auto simp: filter_empty_conv)
    then show ?thesis by (simp add: HAS_MEM_FUNC_eq)
  qed
qed

text \<open>
  \<open>Train\<close> of the documented class \<open>A\<close>: true for its exact type, false with another
  return type and false with one parameter less.
\<close>

theorem HAS_MEM_FUNC_exact_signature_witness:
  "distinct class_A
   \<and> HAS_MEM_FUNC ''Train'' class_A
        \<lparr>ret = ''void'',
         params = [''const arma::mat&'', ''const arma::Row<size_t>&'', ''double''],
         is_const = False\<rparr> = Inr True
   \<and> HAS_MEM_FUNC ''Train'' class_A
        \<lparr>ret = ''int'',
         params = [''const arma::mat&'', ''const arma::Row<size_t>&'', ''double''],
         is_const = False\<rparr> = Inr False
   \<and> HAS_MEM_FUNC ''Train'' class_A
        \<lparr>ret = ''void'',
         params = [''const arma::mat&'', ''const arma::Row<size_t>&''],
         is_const = False\<rparr> = Inr False"
proof -
  let ?s = "\<lparr>ret = ''void'',
         params = [''const arma::mat&'', ''const arma::Row<size_t>&'', ''double''],
         is_const = False\<rparr>"
  let ?r = "\<lparr>ret = ''int'',
         params = [''const arma::mat&'', ''const arma::Row<size_t>&'', ''double''],
         is_const = False\<rparr>"
  let ?p = "\<lparr>ret = ''void'',
         params = [''const arma::mat&'', ''const arma::Row<size_t>&''],
         is_const = False\<rparr>"
  have d: "distinct class_A" by (simp add: class_A_def)
  have l: "member_lookup class_A ''Train'' = [?s]" by (simp add: class_A_def member_lookup_def)
  have m: "(''Train'', ?s) \<in> set class_A" by (simp add: class_A_def)
  have a: "HAS_MEM_FUNC ''Train'' class_A ?s = Inr True"
    using d m HAS_MEM_FUNC_exact_signature [THEN conjunct2, THEN conjunct1, of class_A "''Train''" ?s]
    by simp
  have b: "HAS_MEM_FUNC ''Train'' class_A ?r = Inr False"
    using HAS_MEM_FUNC_exact_signature [THEN conjunct2, THEN conjunct2, of class_A "''Train''" ?r]
    by (simp add: l)
  have c: "HAS_MEM_FUNC ''Train'' class_A ?p = Inr False"
    using HAS_MEM_FUNC_exact_signature [THEN conjunct2, THEN conjunct2, of class_A "''Train''" ?p]
    by (simp add: l)
  show ?thesis
    by (intro conjI d a b c)
qed

section \<open>The template parameters of the generated struct (C7)\<close>

text \<open>
  C7. The header's comment documents the query with the method form first and the class
  second, \<open>HAS_METHOD_FORM(Train, HasTrain); static_assert(HasTrain<TrainFrom, A>::value,
  ...)\<close>, lines 174 and 175. The struct of lines 183 to 185 declares the class first and
  the form second. On the documented example the expansion is well-formed, the documented
  query does not match the parameter list and has no value, and the query with the class
  first gives true.
\<close>

theorem shape_first_query_is_ill_formed:
  "HAS_METHOD_FORM ''Train'' ''HasTrain'' header_scope
     = Inr (header_scope(''HasTrain'' \<mapsto> detector ''Train''))
   \<and> detector_value (header_scope(''HasTrain'' \<mapsto> detector ''Train'')) ''HasTrain''
        [TemplateArgument TrainForm, TypeArgument class_A]
     = Inl TemplateArgumentMismatch
   \<and> detector_value (header_scope(''HasTrain'' \<mapsto> detector ''Train'')) ''HasTrain''
        [TypeArgument class_A, TemplateArgument TrainForm]
     = Inr True"
proof (intro conjI)
  show "HAS_METHOD_FORM ''Train'' ''HasTrain'' header_scope
     = Inr (header_scope(''HasTrain'' \<mapsto> detector ''Train''))"
    by (simp add: expansion_iff body_uses_iff header_scope_def member_names_def
        template_parameter_names_def)
  show "detector_value (header_scope(''HasTrain'' \<mapsto> detector ''Train'')) ''HasTrain''
        [TemplateArgument TrainForm, TypeArgument class_A]
     = Inl TemplateArgumentMismatch"
    by (simp add: detector_value_update HAS_METHOD_FORM_struct_def)
  have "WithNAdditionalArgs ''Train'' class_A TrainForm 1 = Inr True"
    using single_method [OF lookup_Train le_INT_MAX, of 1] by simp
  then have "\<exists>N\<le>7. WithNAdditionalArgs ''Train'' class_A TrainForm N = Inr True"
    by (intro exI [of _ 1]) simp
  then show "detector_value (header_scope(''HasTrain'' \<mapsto> detector ''Train'')) ''HasTrain''
        [TypeArgument class_A, TemplateArgument TrainForm]
     = Inr True"
    by (simp add: detector_value_update struct_value)
qed

section \<open>Overloads (C8)\<close>

text \<open>
  C8. For a class whose members of the probed name are two overloads of the method form,
  declared in either order, with fewer trailing arguments in the first than in the second
  (as \<open>f(int)\<close> and \<open>f(int, int)\<close> under the form \<open>void (Class::*)(Ts...)\<close>): at every count
  that fits \<open>int\<close> the fixed-arity detector gives a boolean, true exactly at the two
  argument counts up to 7, so no probe is ambiguous; the search is true if and only if
  the smaller count is at most 7; the counts probed are those from 0 up to the smaller
  count (or up to 7), so the first match is the overload with fewer arguments and the
  search stops there, without probing the count of the other overload.
\<close>

theorem two_overloads_first_match:
  assumes "member_lookup C METHOD = [MethodForm f Ts1, MethodForm f Ts2]
         \<or> member_lookup C METHOD = [MethodForm f Ts2, MethodForm f Ts1]"
    and "length Ts1 < length Ts2"
  shows "(\<forall>K \<le> INT_MAX. WithNAdditionalArgs METHOD C f K =
            Inr (K \<le> 7 \<and> (K = length Ts1 \<or> K = length Ts2)))
       \<and> HAS_METHOD_FORM_value METHOD C f = Inr (length Ts1 \<le> 7)
       \<and> probed METHOD C f 0 = [0 ..< Suc (min (length Ts1) 7)]
       \<and> (length Ts1 \<le> 7 \<longrightarrow> last (probed METHOD C f 0) = length Ts1)"
proof -
  have ne: "length Ts1 \<noteq> length Ts2" using assms(2) by simp
  have w: "WithNAdditionalArgs METHOD C f K = Inr (K \<le> 7 \<and> (K = length Ts1 \<or> K = length Ts2))"
    if "K \<le> INT_MAX" for K
    using assms(1) ne that by (rule two_methods)
  have w7: "WithNAdditionalArgs METHOD C f K = Inr (K = length Ts1 \<or> K = length Ts2)"
    if "K \<le> 7" for K
    using w [OF le_INT_MAX [OF that]] that by simp
  have "(\<exists>K\<le>7. WithNAdditionalArgs METHOD C f K = Inr True) \<longleftrightarrow> length Ts1 \<le> 7"
    using assms(2) by (auto simp: w7)
  then have v: "HAS_METHOD_FORM_value METHOD C f = Inr (length Ts1 \<le> 7)"
    by (simp add: search_value)
  have p: "probed METHOD C f 0 = [0 ..< Suc (min (length Ts1) 7)]"
  proof (rule probed_upto)
    show "0 \<le> min (length Ts1) 7" by simp
    show "min (length Ts1) 7 \<le> 7" by simp
    show "\<forall>K. 0 \<le> K \<and> K < min (length Ts1) 7 \<longrightarrow> WithNAdditionalArgs METHOD C f K \<noteq> Inr True"
      using assms(2) by (auto simp: w7)
    show "WithNAdditionalArgs METHOD C f (min (length Ts1) 7) = Inr True \<or> min (length Ts1) 7 = 7"
      by (cases "length Ts1 \<le> 7") (auto simp: w7 min_def)
  qed
  have l: "last (probed METHOD C f 0) = length Ts1" if "length Ts1 \<le> 7"
    using that by (simp add: p min_def)
  from w v p l show ?thesis by blast
qed

text \<open>
  The class with \<open>void f(int)\<close> and \<open>void f(int, int)\<close>: the search is true and probes the
  counts 0 and 1; the count 2 would match as well and is not probed.
\<close>

theorem two_overloads_first_match_witness:
  "member_lookup
     [(''f'', \<lparr>ret = ''void'', params = [''int''], is_const = False\<rparr>),
      (''f'', \<lparr>ret = ''void'', params = [''int'', ''int''], is_const = False\<rparr>)] ''f''
     = [MethodForm \<lparr>form_ret = ''void'', form_prefix = [], form_const = False\<rparr> [''int''],
        MethodForm \<lparr>form_ret = ''void'', form_prefix = [], form_const = False\<rparr> [''int'', ''int'']]
   \<and> length [''int''] < length [''int'', ''int'']
   \<and> HAS_METHOD_FORM_value ''f''
     [(''f'', \<lparr>ret = ''void'', params = [''int''], is_const = False\<rparr>),
      (''f'', \<lparr>ret = ''void'', params = [''int'', ''int''], is_const = False\<rparr>)]
     \<lparr>form_ret = ''void'', form_prefix = [], form_const = False\<rparr> = Inr True
   \<and> probed ''f''
     [(''f'', \<lparr>ret = ''void'', params = [''int''], is_const = False\<rparr>),
      (''f'', \<lparr>ret = ''void'', params = [''int'', ''int''], is_const = False\<rparr>)]
     \<lparr>form_ret = ''void'', form_prefix = [], form_const = False\<rparr> 0 = [0, 1]
   \<and> (2::nat) \<le> INT_MAX
   \<and> WithNAdditionalArgs ''f''
     [(''f'', \<lparr>ret = ''void'', params = [''int''], is_const = False\<rparr>),
      (''f'', \<lparr>ret = ''void'', params = [''int'', ''int''], is_const = False\<rparr>)]
     \<lparr>form_ret = ''void'', form_prefix = [], form_const = False\<rparr> 2 = Inr True"
proof -
  let ?C = "[(''f'', \<lparr>ret = ''void'', params = [''int''], is_const = False\<rparr>),
      (''f'', \<lparr>ret = ''void'', params = [''int'', ''int''], is_const = False\<rparr>)]"
  let ?f = "\<lparr>form_ret = ''void'', form_prefix = [], form_const = False\<rparr>"
  have l: "member_lookup ?C ''f'' = [MethodForm ?f [''int''], MethodForm ?f [''int'', ''int'']]"
    by (simp add: member_lookup_def MethodForm_def)
  have n: "length [''int''] < length [''int'', ''int'']" by simp
  have i: "(2::nat) \<le> INT_MAX" by (simp add: INT_MAX_def)
  note T = two_overloads_first_match [OF disjI1 [OF l] n]
  have v: "HAS_METHOD_FORM_value ''f'' ?C ?f = Inr True" using T by simp
  have "probed ''f'' ?C ?f 0 = [0 ..< Suc (min (length [''int'']) 7)]" using T by blast
  then have p: "probed ''f'' ?C ?f 0 = [0, 1]" by (simp add: upt_conv_Cons)
  have "WithNAdditionalArgs ''f'' ?C ?f 2 =
      Inr ((2::nat) \<le> 7 \<and> (2 = length [''int''] \<or> 2 = length [''int'', ''int'']))"
    using i T by blast
  then have w: "WithNAdditionalArgs ''f'' ?C ?f 2 = Inr True" by simp
  show ?thesis
    by (intro conjI l n v p i w)
qed

section \<open>Independent detectors (C9)\<close>

text \<open>
  C9. When two expansions of \<open>HAS_METHOD_FORM\<close>, one after the other in a translation
  unit, are both well-formed, their detector names differ; the second expansion is
  well-formed without the first as well, and each detector has for every argument list
  the value it has when its expansion is the only one. The two expansions change the
  enclosing scope at the two detector names only: no name of a member or of a template
  parameter of the generated structs is declared there. Every name the body of either
  struct looks up still denotes what the text of the macro needs. For a class with no
  member of the second method name the second detector is false, and the first detector
  is true if and only if some count from 0 to 7 matches its own method name.
\<close>

theorem detectors_do_not_interfere:
  assumes "HAS_METHOD_FORM METHOD1 NAME1 tu = Inr tu1"
    and "HAS_METHOD_FORM METHOD2 NAME2 tu1 = Inr tu2"
  shows "NAME1 \<noteq> NAME2
       \<and> (\<exists>alone2. HAS_METHOD_FORM METHOD2 NAME2 tu = Inr alone2
             \<and> (\<forall>args. detector_value tu2 NAME2 args = detector_value alone2 NAME2 args))
       \<and> (\<forall>args. detector_value tu2 NAME1 args = detector_value tu1 NAME1 args)
       \<and> (\<forall>x. x \<noteq> NAME1 \<and> x \<noteq> NAME2 \<longrightarrow> tu2 x = tu x)
       \<and> (\<forall>x \<in> set member_names \<union> set template_parameter_names. tu2 x = tu x)
       \<and> (\<forall>u \<in> set body_uses.
             unqualified_lookup tu2 NAME1 (fst u) = snd u
           \<and> unqualified_lookup tu2 NAME2 (fst u) = snd u)
       \<and> (\<forall>C f. member_lookup C METHOD2 = [] \<longrightarrow>
             detector_value tu2 NAME2 [TypeArgument C, TemplateArgument f] = Inr False
           \<and> detector_value tu2 NAME1 [TypeArgument C, TemplateArgument f]
               = Inr (\<exists>N\<le>7. WithNAdditionalArgs METHOD1 C f N = Inr True))"
proof -
  from assms(1) have a1: "tu NAME1 = None"
    and r1: "NAME1 \<notin> set template_parameter_names" "NAME1 \<notin> set member_names"
    and b1: "list_all (\<lambda>u. unqualified_lookup tu NAME1 (fst u) = snd u) body_uses"
    and t1: "tu1 = tu(NAME1 \<mapsto> detector METHOD1)"
    by (simp_all add: expansion_iff)
  from assms(2) have a2: "tu1 NAME2 = None"
    and r2: "NAME2 \<notin> set template_parameter_names" "NAME2 \<notin> set member_names"
    and b2: "list_all (\<lambda>u. unqualified_lookup tu1 NAME2 (fst u) = snd u) body_uses"
    and t2: "tu2 = tu1(NAME2 \<mapsto> detector METHOD2)"
    by (simp_all add: expansion_iff)
  have ne: "NAME1 \<noteq> NAME2" using a2 t1 by auto
  have a2': "tu NAME2 = None" using a2 t1 ne by simp
  note h1 = b1 [unfolded body_uses_iff]
  note h2 = b2 [unfolded body_uses_iff]
  have b2': "list_all (\<lambda>u. unqualified_lookup tu NAME2 (fst u) = snd u) body_uses"
    using h1 h2 by (auto simp: body_uses_iff t1 split: if_splits)
  have alone: "HAS_METHOD_FORM METHOD2 NAME2 tu = Inr (tu(NAME2 \<mapsto> detector METHOD2))"
    using a2' r2 b2' by (simp add: expansion_iff)
  have d2: "detector_value tu2 NAME2 args = HAS_METHOD_FORM_struct METHOD2 args" for args
    by (simp add: t2 detector_value_update)
  have d2a: "detector_value (tu(NAME2 \<mapsto> detector METHOD2)) NAME2 args
      = HAS_METHOD_FORM_struct METHOD2 args" for args
    by (rule detector_value_update)
  have d1': "detector_value tu1 NAME1 args = HAS_METHOD_FORM_struct METHOD1 args" for args
    by (simp add: t1 detector_value_update)
  have d1: "detector_value tu2 NAME1 args = HAS_METHOD_FORM_struct METHOD1 args" for args
    using ne by (simp add: t2 detector_value_other d1')
  have c2: "\<exists>alone2. HAS_METHOD_FORM METHOD2 NAME2 tu = Inr alone2
             \<and> (\<forall>args. detector_value tu2 NAME2 args = detector_value alone2 NAME2 args)"
    using alone d2 d2a by auto
  have c3: "\<forall>args. detector_value tu2 NAME1 args = detector_value tu1 NAME1 args"
    by (simp add: d1 d1')
  have c4: "\<forall>x. x \<noteq> NAME1 \<and> x \<noteq> NAME2 \<longrightarrow> tu2 x = tu x"
    by (simp add: t1 t2)
  have c5: "\<forall>x \<in> set member_names \<union> set template_parameter_names. tu2 x = tu x"
    using r1 r2 by (auto simp: t1 t2)
  have "list_all (\<lambda>u. unqualified_lookup tu2 NAME1 (fst u) = snd u) body_uses"
    using h1 h2 by (auto simp: body_uses_iff t1 t2 split: if_splits)
  moreover have "list_all (\<lambda>u. unqualified_lookup tu2 NAME2 (fst u) = snd u) body_uses"
    using h1 h2 by (auto simp: body_uses_iff t1 t2 split: if_splits)
  ultimately have c6: "\<forall>u \<in> set body_uses.
             unqualified_lookup tu2 NAME1 (fst u) = snd u
           \<and> unqualified_lookup tu2 NAME2 (fst u) = snd u"
    by (simp add: list_all_iff)
  have f2: "HAS_METHOD_FORM_struct METHOD2 [TypeArgument C, TemplateArgument f] = Inr False"
    if "member_lookup C METHOD2 = []" for C f
    using no_method [OF that le_INT_MAX] by (simp add: struct_value)
  have c7: "\<forall>C f. member_lookup C METHOD2 = [] \<longrightarrow>
             detector_value tu2 NAME2 [TypeArgument C, TemplateArgument f] = Inr False
           \<and> detector_value tu2 NAME1 [TypeArgument C, TemplateArgument f]
               = Inr (\<exists>N\<le>7. WithNAdditionalArgs METHOD1 C f N = Inr True)"
    by (simp only: d1 d2 struct_value) (simp add: f2 [unfolded struct_value])
  from ne c2 c3 c4 c5 c6 c7 show ?thesis by blast
qed

text \<open>
  \<open>HasTrain\<close> and \<open>HasPredict\<close> declared after the header, on the documented class \<open>A\<close>,
  which has \<open>Train\<close> only. A detector cannot be named \<open>MF\<close> or \<open>Class\<close>, nor like a detector
  declared before.
\<close>

theorem detectors_do_not_interfere_witness:
  "HAS_METHOD_FORM ''Train'' ''HasTrain'' header_scope
     = Inr (header_scope(''HasTrain'' \<mapsto> detector ''Train''))
   \<and> HAS_METHOD_FORM ''Predict'' ''HasPredict'' (header_scope(''HasTrain'' \<mapsto> detector ''Train''))
     = Inr (header_scope(''HasTrain'' \<mapsto> detector ''Train'', ''HasPredict'' \<mapsto> detector ''Predict''))
   \<and> member_lookup class_A ''Predict'' = []
   \<and> detector_value
        (header_scope(''HasTrain'' \<mapsto> detector ''Train'', ''HasPredict'' \<mapsto> detector ''Predict''))
        ''HasPredict'' [TypeArgument class_A, TemplateArgument TrainForm] = Inr False
   \<and> detector_value
        (header_scope(''HasTrain'' \<mapsto> detector ''Train'', ''HasPredict'' \<mapsto> detector ''Predict''))
        ''HasTrain'' [TypeArgument class_A, TemplateArgument TrainForm] = Inr True
   \<and> (header_scope(''HasTrain'' \<mapsto> detector ''Train'', ''HasPredict'' \<mapsto> detector ''Predict''))
        ''WithNAdditionalArgs'' = None
   \<and> HAS_METHOD_FORM ''Predict'' ''MF'' (header_scope(''HasTrain'' \<mapsto> detector ''Train''))
     = Inl NameClash
   \<and> HAS_METHOD_FORM ''Predict'' ''Class'' (header_scope(''HasTrain'' \<mapsto> detector ''Train''))
     = Inl NameClash
   \<and> HAS_METHOD_FORM ''Predict'' ''HasTrain'' (header_scope(''HasTrain'' \<mapsto> detector ''Train''))
     = Inl Redefinition"
proof -
  let ?tu1 = "header_scope(''HasTrain'' \<mapsto> detector ''Train'')"
  let ?tu2 = "header_scope(''HasTrain'' \<mapsto> detector ''Train'', ''HasPredict'' \<mapsto> detector ''Predict'')"
  have e1: "HAS_METHOD_FORM ''Train'' ''HasTrain'' header_scope = Inr ?tu1"
    by (simp add: expansion_iff body_uses_iff header_scope_def member_names_def
        template_parameter_names_def)
  have e2: "HAS_METHOD_FORM ''Predict'' ''HasPredict'' ?tu1 = Inr ?tu2"
    by (simp add: expansion_iff body_uses_iff header_scope_def member_names_def
        template_parameter_names_def)
  have l: "member_lookup class_A ''Predict'' = []" by (rule lookup_Predict)
  have w: "WithNAdditionalArgs ''Train'' class_A TrainForm 1 = Inr True"
    using single_method [OF lookup_Train le_INT_MAX, of 1] by simp
  then have x: "\<exists>N\<le>7. WithNAdditionalArgs ''Train'' class_A TrainForm N = Inr True"
    by (intro exI [of _ 1]) simp
  note T = detectors_do_not_interfere [OF e1 e2]
  from T l have a: "detector_value ?tu2 ''HasPredict''
      [TypeArgument class_A, TemplateArgument TrainForm] = Inr False"
    by blast
  from T l have "detector_value ?tu2 ''HasTrain''
      [TypeArgument class_A, TemplateArgument TrainForm]
        = Inr (\<exists>N\<le>7. WithNAdditionalArgs ''Train'' class_A TrainForm N = Inr True)"
    by blast
  with x have b: "detector_value ?tu2 ''HasTrain''
      [TypeArgument class_A, TemplateArgument TrainForm] = Inr True"
    by simp
  have m: "''WithNAdditionalArgs'' \<in> set member_names \<union> set template_parameter_names"
    by (simp add: member_names_def)
  have "?tu2 ''WithNAdditionalArgs'' = header_scope ''WithNAdditionalArgs''"
    using T m by blast
  then have c: "?tu2 ''WithNAdditionalArgs'' = None"
    by (simp add: header_scope_def)
  have n1: "HAS_METHOD_FORM ''Predict'' ''MF'' ?tu1 = Inl NameClash"
    by (simp add: HAS_METHOD_FORM_def header_scope_def member_names_def)
  have n2: "HAS_METHOD_FORM ''Predict'' ''Class'' ?tu1 = Inl NameClash"
    by (simp add: HAS_METHOD_FORM_def header_scope_def template_parameter_names_def)
  have n3: "HAS_METHOD_FORM ''Predict'' ''HasTrain'' ?tu1 = Inl Redefinition"
    by (simp add: HAS_METHOD_FORM_def)
  show ?thesis
    by (intro conjI e1 e2 l a b c n1 n2 n3)
qed

section \<open>The detecter beyond the bound (C10)\<close>

text \<open>
  C10, as amended. \<open>MethodFormDetecter<Class, MethodForm, N>\<close> is defined for the counts
  0 to 7 and for no other: up to the bound the specialisation for \<open>N\<close> has \<open>N\<close> template
  parameters; beyond \<open>MaxMFDAdditionalArgsCount\<close> only the declaration of the primary
  template applies, the type is incomplete and creating an object of it is ill-formed.
  Inside the fixed-arity detector that ill-formed expression is a substitution failure:
  for a count beyond the bound that fits \<open>int\<close>, \<open>WithNAdditionalArgs<N>::value\<close> is false,
  without any search. The search started at 0 probes only counts up to the bound, for
  which the detecter is defined.
\<close>

theorem detecter_incomplete_beyond_seven:
  "(MethodFormDetecter N = None \<longleftrightarrow> MaxMFDAdditionalArgsCount < N)
   \<and> (N \<le> MaxMFDAdditionalArgsCount \<longrightarrow> MethodFormDetecter N = Some N \<and> MFD N = Inr N)
   \<and> (MaxMFDAdditionalArgsCount < N \<and> N \<le> INT_MAX \<longrightarrow>
        MFD N = Inl IncompleteType
        \<and> probe METHOD C f N = Inl IncompleteType
        \<and> WithNAdditionalArgs METHOD C f N = Inr False)
   \<and> (\<forall>K \<in> set (probed METHOD C f 0).
        K \<le> MaxMFDAdditionalArgsCount \<and> MethodFormDetecter K \<noteq> None)"
proof (intro conjI impI ballI)
  show "MethodFormDetecter N = None \<longleftrightarrow> MaxMFDAdditionalArgsCount < N"
    by (auto simp: MethodFormDetecter_eq MaxMFDAdditionalArgsCount_def)
  show "MethodFormDetecter N = Some N" if "N \<le> MaxMFDAdditionalArgsCount"
    using that by (simp add: MethodFormDetecter_eq MaxMFDAdditionalArgsCount_def)
  show "MFD N = Inr N" if "N \<le> MaxMFDAdditionalArgsCount"
    using that by (simp add: MFD_eq MaxMFDAdditionalArgsCount_def INT_MAX_def)
  show "MFD N = Inl IncompleteType" if "MaxMFDAdditionalArgsCount < N \<and> N \<le> INT_MAX"
    using that by (simp add: MFD_eq MaxMFDAdditionalArgsCount_def)
  show "probe METHOD C f N = Inl IncompleteType"
    if "MaxMFDAdditionalArgsCount < N \<and> N \<le> INT_MAX"
    using that by (simp add: probe_def MFD_eq MaxMFDAdditionalArgsCount_def)
  show "WithNAdditionalArgs METHOD C f N = Inr False"
    if "MaxMFDAdditionalArgsCount < N \<and> N \<le> INT_MAX"
    using that by (simp add: WithN_eq MaxMFDAdditionalArgsCount_def)
  show "K \<le> MaxMFDAdditionalArgsCount" if "K \<in> set (probed METHOD C f 0)" for K
    using probed_bound [OF that] by (simp add: MaxMFDAdditionalArgsCount_def)
  show "MethodFormDetecter K \<noteq> None" if "K \<in> set (probed METHOD C f 0)" for K
    using probed_bound [OF that] by (simp add: MethodFormDetecter_eq)
qed

text \<open>
  The counts 8 and 7, and the eight counts probed for a name the class does not
  declare.
\<close>

theorem detecter_incomplete_beyond_seven_witness:
  "MaxMFDAdditionalArgsCount < 8 \<and> (8::nat) \<le> INT_MAX
   \<and> MethodFormDetecter 8 = None
   \<and> MFD 8 = Inl IncompleteType
   \<and> probe ''Train'' class_A TrainForm 8 = Inl IncompleteType
   \<and> WithNAdditionalArgs ''Train'' class_A TrainForm 8 = Inr False
   \<and> (7::nat) \<le> MaxMFDAdditionalArgsCount
   \<and> MethodFormDetecter 7 = Some 7
   \<and> MFD 7 = Inr 7
   \<and> probed ''Predict'' class_A TrainForm 0 = [0, 1, 2, 3, 4, 5, 6, 7]
   \<and> list_all (\<lambda>K. K \<le> MaxMFDAdditionalArgsCount \<and> MethodFormDetecter K \<noteq> None)
        (probed ''Predict'' class_A TrainForm 0)"
proof -
  have m: "MaxMFDAdditionalArgsCount < 8" by (simp add: MaxMFDAdditionalArgsCount_def)
  have i: "(8::nat) \<le> INT_MAX" by (simp add: INT_MAX_def)
  have s: "(7::nat) \<le> MaxMFDAdditionalArgsCount" by (simp add: MaxMFDAdditionalArgsCount_def)
  have n: "WithNAdditionalArgs ''Predict'' class_A TrainForm K = Inr False" if "K \<le> 7" for K
    using no_method [OF lookup_Predict le_INT_MAX [OF that]] .
  have "probed ''Predict'' class_A TrainForm 0 = [0 ..< Suc 7]"
    by (rule probed_upto) (simp_all add: n)
  then have p: "probed ''Predict'' class_A TrainForm 0 = [0, 1, 2, 3, 4, 5, 6, 7]"
    by (simp add: upt_conv_Cons)
  note T8 = detecter_incomplete_beyond_seven [of 8 "''Train''" class_A TrainForm]
  note T7 = detecter_incomplete_beyond_seven [of 7 "''Predict''" class_A TrainForm]
  have a: "MethodFormDetecter 8 = None" using m T8 by blast
  have b: "MFD 8 = Inl IncompleteType" using m i T8 by blast
  have b': "probe ''Train'' class_A TrainForm 8 = Inl IncompleteType" using m i T8 by blast
  have b'': "WithNAdditionalArgs ''Train'' class_A TrainForm 8 = Inr False" using m i T8 by blast
  have c: "MethodFormDetecter 7 = Some 7" using s T7 by blast
  have d: "MFD 7 = Inr 7" using s T7 by blast
  have e: "list_all (\<lambda>K. K \<le> MaxMFDAdditionalArgsCount \<and> MethodFormDetecter K \<noteq> None)
      (probed ''Predict'' class_A TrainForm 0)"
    using T7 by (simp only: list_all_iff) blast
  show ?thesis
    by (intro conjI m i a b b' b'' s c d p e)
qed

text \<open>
  The claim as stated, that only the search and never the fixed-arity detector handles a
  count beyond the bound, fails at the counts 8 and 9: the detecter is not defined there,
  and the fixed-arity detector gives false.
\<close>

theorem fixed_arity_detector_beyond_bound_counterexample:
  "MethodFormDetecter 8 = None
   \<and> WithNAdditionalArgs ''Train'' class_A TrainForm 8 = Inr False
   \<and> WithNAdditionalArgs ''Train'' class_A TrainForm 9 = Inr False"
proof (intro conjI)
  show "MethodFormDetecter 8 = None" by (simp add: MethodFormDetecter_eq)
  show "WithNAdditionalArgs ''Train'' class_A TrainForm 8 = Inr False"
    by (simp add: WithN_eq INT_MAX_def)
  show "WithNAdditionalArgs ''Train'' class_A TrainForm 9 = Inr False"
    by (simp add: WithN_eq INT_MAX_def)
qed

end
